theory Spec2Isabelle
  imports Complex_Main "HOL-Library.Sublist" "HOL-Library.AList"
begin

section \<open>Narration bridge (src/utils/AudioUtils.ts)\<close>

text \<open>
  The browser's speech service is the one piece of state \<^verbatim>\<open>speak\<close> and
  \<^verbatim>\<open>stopSpeaking\<close> touch. It is modelled as the queue of utterances that are being
  spoken or waiting to be spoken: \<^verbatim>\<open>speechSynthesis.cancel()\<close> removes every utterance
  from the queue, \<^verbatim>\<open>speechSynthesis.speak(u)\<close> appends \<^verbatim>\<open>u\<close> to it. The calls a
  handler issues are kept as a sequence, so that their order can be stated.
\<close>

record voice =
  lang :: string
  vname :: string

record utterance =
  utext :: string
  rate :: rat
  pitch :: rat
  volume :: rat
  uvoice :: "voice option"

datatype synth_call = Cancel | Speak utterance

fun synth_apply :: "utterance list \<Rightarrow> synth_call \<Rightarrow> utterance list" where
  "synth_apply q Cancel = []"
| "synth_apply q (Speak u) = q @ [u]"

definition run_synth :: "utterance list \<Rightarrow> synth_call list \<Rightarrow> utterance list" where
  "run_synth q cs = foldl synth_apply q cs"

text \<open>\<^verbatim>\<open>String.prototype.includes\<close>: the argument occurs as a contiguous substring.\<close>

definition includes_str :: "string \<Rightarrow> string \<Rightarrow> bool" where
  "includes_str s sub = (\<exists>k \<in> set [0 ..< Suc (length s)]. take (length sub) (drop k s) = sub)"

text \<open>
  \<^verbatim>\<open>voices.find(google english) || voices.find(english) || voices[0]\<close>; a voice object
  is truthy, a failed \<^verbatim>\<open>find\<close> and \<^verbatim>\<open>voices[0]\<close> of an empty list are undefined.
\<close>

definition preferredVoice :: "voice list \<Rightarrow> voice option" where
  "preferredVoice vs =
     (case find (\<lambda>v. prefix ''en'' (lang v) \<and> includes_str (vname v) ''Google'') vs of
        Some v \<Rightarrow> Some v
      | None \<Rightarrow>
          (case find (\<lambda>v. prefix ''en'' (lang v)) vs of
             Some v \<Rightarrow> Some v
           | None \<Rightarrow> (case vs of [] \<Rightarrow> None | v # _ \<Rightarrow> Some v)))"

text \<open>
  \<^verbatim>\<open>speak(text, rate = 1)\<close>: cancel, build the utterance, pick a voice, speak. The
  result is the sequence of calls made on the speech service.
\<close>

definition speak :: "voice list \<Rightarrow> string \<Rightarrow> rat \<Rightarrow> synth_call list" where
  "speak vs txt r =
     [Cancel,
      Speak \<lparr>utext = txt, rate = r, pitch = 1, volume = 1, uvoice = preferredVoice vs\<rparr>]"

definition stopSpeaking :: "synth_call list" where
  "stopSpeaking = [Cancel]"

definition isSpeaking :: "utterance list \<Rightarrow> bool" where
  "isSpeaking q = (q \<noteq> [])"

text \<open>Every \<^verbatim>\<open>speak\<close> call of a sequence comes directly after a \<^verbatim>\<open>cancel\<close>.\<close>

fun cancel_before_speak :: "synth_call list \<Rightarrow> bool" where
  "cancel_before_speak [] = True"
| "cancel_before_speak (Speak u # cs) = False"
| "cancel_before_speak (Cancel # Speak u # cs) = cancel_before_speak cs"
| "cancel_before_speak (Cancel # cs) = cancel_before_speak cs"

section \<open>Playback controller (StepByStepDisplay)\<close>

record AlgorithmStep =
  stepNo :: int
  description :: string
  code :: string
  explanation :: string

text \<open>
  The component's state: the props \<^verbatim>\<open>steps\<close> and \<^verbatim>\<open>currentStep\<close> (the latter owned
  by the page, changed through \<^verbatim>\<open>onStepChange = setCurrentStep\<close>), the two
  \<^verbatim>\<open>useState\<close> cells, the \<^verbatim>\<open>intervalRef\<close>, and what the component does to the
  browser: the interval timers that are live, the number of \<^verbatim>\<open>setInterval\<close> calls made
  so far (handles are handed out as 1, 2, 3, ..., all truthy), the calls on the speech
  service, and the installed voices.
\<close>

record controller =
  steps :: "AlgorithmStep list"
  currentStep :: int
  isPlaying :: bool
  playbackSpeed :: int
  intervalRef :: "nat option"
  timers :: "nat list"
  timersCreated :: nat
  synthCalls :: "synth_call list"
  voices :: "voice list"

definition last_index :: "controller \<Rightarrow> int" where
  "last_index st = int (length (steps st)) - 1"

text \<open>\<^verbatim>\<open>steps[i]\<close>: undefined outside the array, a (truthy) step object inside.\<close>

definition steps_at :: "controller \<Rightarrow> int \<Rightarrow> AlgorithmStep option" where
  "steps_at st i =
     (if 0 \<le> i \<and> i < int (length (steps st)) then Some (steps st ! nat i) else None)"

definition onStepChange :: "int \<Rightarrow> controller \<Rightarrow> controller" where
  "onStepChange n st = st\<lparr>currentStep := n\<rparr>"

definition setIsPlaying :: "bool \<Rightarrow> controller \<Rightarrow> controller" where
  "setIsPlaying b st = st\<lparr>isPlaying := b\<rparr>"

definition setInterval :: "controller \<Rightarrow> controller" where
  "setInterval st =
     (let h = Suc (timersCreated st)
      in st\<lparr>intervalRef := Some h, timers := timers st @ [h], timersCreated := h\<rparr>)"

definition clearInterval :: "nat \<Rightarrow> controller \<Rightarrow> controller" where
  "clearInterval h st = st\<lparr>timers := removeAll h (timers st)\<rparr>"

text \<open>\<^verbatim>\<open>if (intervalRef.current) clearInterval(intervalRef.current)\<close>; the ref keeps the handle.\<close>

definition clear_ref :: "controller \<Rightarrow> controller" where
  "clear_ref st = (case intervalRef st of None \<Rightarrow> st | Some h \<Rightarrow> clearInterval h st)"

definition synth :: "synth_call list \<Rightarrow> controller \<Rightarrow> controller" where
  "synth cs st = st\<lparr>synthCalls := synthCalls st @ cs\<rparr>"

definition narrate :: "int \<Rightarrow> controller \<Rightarrow> controller" where
  "narrate i st =
     (case steps_at st i of
        None \<Rightarrow> st
      | Some s \<Rightarrow> synth (speak (voices st) (description s) 1) st)"

definition handlePlay :: "controller \<Rightarrow> controller" where
  "handlePlay st =
     setIsPlaying True (if currentStep st \<ge> last_index st then onStepChange 0 st else st)"

definition handlePause :: "controller \<Rightarrow> controller" where
  "handlePause st = synth stopSpeaking (clear_ref (setIsPlaying False st))"

definition handleNext :: "controller \<Rightarrow> controller" where
  "handleNext st =
     (if currentStep st < last_index st
      then (let newStep = currentStep st + 1 in narrate newStep (onStepChange newStep st))
      else st)"

definition handlePrevious :: "controller \<Rightarrow> controller" where
  "handlePrevious st =
     (if currentStep st > 0
      then (let newStep = currentStep st - 1 in narrate newStep (onStepChange newStep st))
      else st)"

definition handleReset :: "controller \<Rightarrow> controller" where
  "handleReset st = narrate 0 (onStepChange 0 (handlePause st))"

text \<open>
  The playback effect, with dependencies \<^verbatim>\<open>[isPlaying, currentStep, playbackSpeed]\<close>:
  its body, and the cleanup React runs before the next run of the body.
\<close>

definition playback_effect :: "controller \<Rightarrow> controller" where
  "playback_effect st =
     (if isPlaying st \<and> currentStep st < last_index st then setInterval st
      else if currentStep st \<ge> last_index st then setIsPlaying False st
      else st)"

definition deps_changed :: "controller \<Rightarrow> controller \<Rightarrow> bool" where
  "deps_changed old new =
     (isPlaying old \<noteq> isPlaying new \<or> currentStep old \<noteq> currentStep new
      \<or> playbackSpeed old \<noteq> playbackSpeed new)"

text \<open>
  After a render in which a dependency changed, React runs the cleanup of the previous
  run and then the body. The body may itself change \<^verbatim>\<open>isPlaying\<close>, which is another
  render with a changed dependency, and so on until nothing changes.
\<close>

function settle :: "controller \<Rightarrow> controller" where
  "settle st =
     (let st' = playback_effect (clear_ref st)
      in if deps_changed st st' then settle st' else st')"
  by pat_completeness auto
termination
proof (relation "measure (\<lambda>st. if isPlaying st then 1 else 0)")
  show "wf (measure (\<lambda>st. if isPlaying st then 1 else (0::nat)))" by simp
next
  fix st st'
  assume a: "st' = playback_effect (clear_ref st)" and d: "deps_changed st st'"
  have "currentStep st' = currentStep st" "playbackSpeed st' = playbackSpeed st"
       "isPlaying st' \<longrightarrow> isPlaying st"
    using a
    by (auto simp: playback_effect_def clear_ref_def clearInterval_def setInterval_def
          setIsPlaying_def Let_def split: option.splits if_splits)
  with d have "isPlaying st \<and> \<not> isPlaying st'" by (auto simp: deps_changed_def)
  then show "(st', st) \<in> measure (\<lambda>st. if isPlaying st then 1 else (0::nat))" by simp
qed

declare settle.simps [simp del]

text \<open>
  An event handler runs to completion; if it changed a dependency, the effect follows.
  The interval callback is \<^verbatim>\<open>handleNext\<close>, and fires only while its timer is live.
\<close>

definition dispatch :: "(controller \<Rightarrow> controller) \<Rightarrow> controller \<Rightarrow> controller" where
  "dispatch h st = (let st' = h st in if deps_changed st st' then settle st' else st')"

definition tick :: "nat \<Rightarrow> controller \<Rightarrow> controller" where
  "tick h st = (if h \<in> set (timers st) then dispatch handleNext st else st)"

text \<open>Mounting: the initial state cells, then the first run of the effect.\<close>

definition mount :: "AlgorithmStep list \<Rightarrow> voice list \<Rightarrow> controller" where
  "mount ss vs =
     playback_effect
       \<lparr>steps = ss, currentStep = 0, isPlaying = False, playbackSpeed = 1000,
        intervalRef = None, timers = [], timersCreated = 0, synthCalls = [], voices = vs\<rparr>"

text \<open>
  The speed slider, which is disabled while playing, and unmounting, which runs the cleanup
  of the playback effect and then that of the second effect.
\<close>

definition setPlaybackSpeed :: "int \<Rightarrow> controller \<Rightarrow> controller" where
  "setPlaybackSpeed ms st = st\<lparr>playbackSpeed := ms\<rparr>"

definition unmount :: "controller \<Rightarrow> controller" where
  "unmount st = synth stopSpeaking (clear_ref (clear_ref st))"

text \<open>
  The calls a handler adds to the speech service, whether the queue ever holds two
  utterances while a sequence of calls runs, and the utterance \<^verbatim>\<open>speak\<close> builds for a
  step's description.
\<close>

definition calls_of :: "(controller \<Rightarrow> controller) \<Rightarrow> controller \<Rightarrow> synth_call list" where
  "calls_of h st = drop (length (synthCalls st)) (synthCalls (h st))"

definition never_two_active :: "utterance list \<Rightarrow> synth_call list \<Rightarrow> bool" where
  "never_two_active q cs = (\<forall>p \<in> set (prefixes cs). length (run_synth q p) \<le> 1)"

definition narration_of :: "controller \<Rightarrow> AlgorithmStep \<Rightarrow> utterance" where
  "narration_of st s =
     \<lparr>utext = description s, rate = 1, pitch = 1, volume = 1,
      uvoice = preferredVoice (voices st)\<rparr>"

section \<open>Untyped payloads\<close>

text \<open>
  The visualization payload is whatever \<^verbatim>\<open>JSON.parse\<close> made of the generator's answer, so
  the renderers are modelled on JavaScript values. An object is the list of its own
  properties in enumeration order (what \<^verbatim>\<open>Object.keys\<close> walks); reading a property takes
  the first entry with that key. \<^verbatim>\<open>JUndefined\<close> is also what a missing property reads as.
\<close>

datatype jsval =
    JUndefined
  | JNull
  | JBool bool
  | JNum rat
  | JStr string
  | JArr "jsval list"
  | JObj "(string \<times> jsval) list"

text \<open>
  What can be thrown: a JavaScript \<^verbatim>\<open>TypeError\<close>, d3-force's \<^verbatim>\<open>node not found\<close> for a
  link whose endpoint id names no node, and React's error for a plain object given as a
  child.
\<close>

datatype error = TypeError | NodeNotFound jsval | InvalidChild

fun truthy :: "jsval \<Rightarrow> bool" where
  "truthy JUndefined = False"
| "truthy JNull = False"
| "truthy (JBool b) = b"
| "truthy (JNum n) = (n \<noteq> 0)"
| "truthy (JStr s) = (s \<noteq> [])"
| "truthy (JArr xs) = True"
| "truthy (JObj kvs) = True"

text \<open>\<^verbatim>\<open>Array.isArray(v)\<close> and \<^verbatim>\<open>typeof v === 'object'\<close> (true of \<^verbatim>\<open>null\<close> as well).\<close>

fun isArray :: "jsval \<Rightarrow> bool" where
  "isArray (JArr xs) = True"
| "isArray v = False"

fun typeof_object :: "jsval \<Rightarrow> bool" where
  "typeof_object JNull = True"
| "typeof_object (JArr xs) = True"
| "typeof_object (JObj kvs) = True"
| "typeof_object v = False"

text \<open>
  \<^verbatim>\<open>v.k\<close> for a property name \<^verbatim>\<open>k\<close> that is neither \<^verbatim>\<open>length\<close> nor an index: a
  \<^verbatim>\<open>TypeError\<close> on \<^verbatim>\<open>undefined\<close> and \<^verbatim>\<open>null\<close>, the property of an object, and
  \<^verbatim>\<open>undefined\<close> on every other value.
\<close>

fun get_prop :: "jsval \<Rightarrow> string \<Rightarrow> error + jsval" where
  "get_prop JUndefined k = Inl TypeError"
| "get_prop JNull k = Inl TypeError"
| "get_prop (JObj kvs) k = Inr (case map_of kvs k of None \<Rightarrow> JUndefined | Some v \<Rightarrow> v)"
| "get_prop v k = Inr JUndefined"

text \<open>The same read where the source has already excluded \<^verbatim>\<open>undefined\<close> and \<^verbatim>\<open>null\<close>.\<close>

fun get_field :: "jsval \<Rightarrow> string \<Rightarrow> jsval" where
  "get_field (JObj kvs) k = (case map_of kvs k of None \<Rightarrow> JUndefined | Some v \<Rightarrow> v)"
| "get_field v k = JUndefined"

text \<open>\<^verbatim>\<open>'k' in v\<close>, used by the source only on a non-array object.\<close>

fun has_key :: "string \<Rightarrow> jsval \<Rightarrow> bool" where
  "has_key k (JObj kvs) = (k \<in> set (map fst kvs))"
| "has_key k v = False"

text \<open>
  \<^verbatim>\<open>a === b\<close>. Primitives compare by value. Arrays and objects compare by identity, and
  two values read from different places of a parsed payload are never the same object.
\<close>

fun strict_eq :: "jsval \<Rightarrow> jsval \<Rightarrow> bool" where
  "strict_eq JUndefined JUndefined = True"
| "strict_eq JNull JNull = True"
| "strict_eq (JBool a) (JBool b) = (a = b)"
| "strict_eq (JNum a) (JNum b) = (a = b)"
| "strict_eq (JStr a) (JStr b) = (a = b)"
| "strict_eq a b = False"

text \<open>\<^verbatim>\<open>v.length\<close>.\<close>

fun js_length :: "jsval \<Rightarrow> error + jsval" where
  "js_length JUndefined = Inl TypeError"
| "js_length JNull = Inl TypeError"
| "js_length (JArr xs) = Inr (JNum (of_nat (length xs)))"
| "js_length (JStr s) = Inr (JNum (of_nat (length s)))"
| "js_length (JObj kvs) = Inr (case map_of kvs ''length'' of None \<Rightarrow> JUndefined | Some v \<Rightarrow> v)"
| "js_length v = Inr JUndefined"

section \<open>Scenes and d3 selections\<close>

text \<open>
  A scene is the list of SVG elements a renderer appends, in the order of the calls that
  append them. An element keeps its tag, its attributes (a DOM attribute is a string, so
  the number 4 is stored as \<^verbatim>\<open>4\<close>) and the values handed to \<^verbatim>\<open>.text\<close>, whose string
  conversions, concatenated, are its text. Of the attributes, \<^verbatim>\<open>class\<close>, \<^verbatim>\<open>fill\<close>,
  \<^verbatim>\<open>stroke\<close>, \<^verbatim>\<open>stroke-width\<close>, \<^verbatim>\<open>marker-end\<close> and \<^verbatim>\<open>id\<close> are kept; positions, sizes, fonts,
  which come out of floating-point scales, are not part of the model, nor are the tick
  marks d3 puts inside an axis group. The plain outer group that the array, list and tree
  renderers append first, with nothing but a transform, is the parent of the scene and is
  not listed in it.
\<close>

record svg_elem =
  tag :: string
  attrs :: "(string \<times> string) list"
  content :: "jsval list"

definition new_elem :: "string \<Rightarrow> svg_elem" where
  "new_elem t = \<lparr>tag = t, attrs = [], content = []\<rparr>"

definition set_attr :: "string \<Rightarrow> string \<Rightarrow> svg_elem \<Rightarrow> svg_elem" where
  "set_attr k v e = e\<lparr>attrs := AList.update k v (attrs e)\<rparr>"

definition get_attr :: "svg_elem \<Rightarrow> string \<Rightarrow> string option" where
  "get_attr e k = map_of (attrs e) k"

definition has_class :: "string \<Rightarrow> svg_elem \<Rightarrow> bool" where
  "has_class c e = (get_attr e ''class'' = Some c)"

text \<open>
  A selection is one group of elements, each with the datum bound to it. A function given
  to \<^verbatim>\<open>.attr\<close> or \<^verbatim>\<open>.text\<close> is called with the datum and the index of the element
  within its group. \<^verbatim>\<open>selectAll(c).data(ds).enter().append(t)\<close>, where no element of class
  \<^verbatim>\<open>c\<close> exists yet, makes one element per datum; \<^verbatim>\<open>sel.append(t)\<close> makes one new element
  per element of \<^verbatim>\<open>sel\<close>, at the same index and with the same datum. The group \<^verbatim>\<open>g\<close>
  every renderer starts from holds a single element, so \<^verbatim>\<open>g.append(t)\<close> is a selection
  of one element, whose index is 0.
\<close>

type_synonym 'd selection = "('d \<times> svg_elem) list"

definition enter_append :: "string \<Rightarrow> 'd list \<Rightarrow> 'd selection" where
  "enter_append t ds = map (\<lambda>d. (d, new_elem t)) ds"

definition append_sel :: "string \<Rightarrow> 'd selection \<Rightarrow> 'd selection" where
  "append_sel t sel = map (\<lambda>(d, e). (d, new_elem t)) sel"

definition g_group :: "unit selection" where
  "g_group = [((), new_elem ''g'')]"

definition attr_fn :: "string \<Rightarrow> ('d \<Rightarrow> nat \<Rightarrow> string) \<Rightarrow> 'd selection \<Rightarrow> 'd selection" where
  "attr_fn k f sel = map (\<lambda>(i, (d, e)). (d, set_attr k (f d i) e)) (enumerate 0 sel)"

definition attr_const :: "string \<Rightarrow> string \<Rightarrow> 'd selection \<Rightarrow> 'd selection" where
  "attr_const k v sel = map (\<lambda>(d, e). (d, set_attr k v e)) sel"

definition text_fn :: "('d \<Rightarrow> nat \<Rightarrow> jsval list) \<Rightarrow> 'd selection \<Rightarrow> 'd selection" where
  "text_fn f sel = map (\<lambda>(i, (d, e)). (d, e\<lparr>content := f d i\<rparr>)) (enumerate 0 sel)"

text \<open>A chain of calls on a selection, in source order, and the elements it leaves.\<close>

definition chain :: "'d selection \<Rightarrow> ('d selection \<Rightarrow> 'd selection) list \<Rightarrow> svg_elem list" where
  "chain sel fs = map snd (foldl (\<lambda>s f. f s) sel fs)"

section \<open>Array renderer (renderArrayVisualization)\<close>

text \<open>The three callbacks that style a bar, given the step and the bar's index.\<close>

definition bar_fill :: "int \<Rightarrow> nat \<Rightarrow> string" where
  "bar_fill step i =
     (if int i = step then ''var(--current-color)''
      else if int i < step then ''var(--checked-color)''
      else ''var(--unchecked-color)'')"

definition bar_stroke :: "int \<Rightarrow> nat \<Rightarrow> string" where
  "bar_stroke step i = (if int i = step then ''var(--ai-color)'' else ''var(--stroke-color)'')"

definition bar_stroke_width :: "int \<Rightarrow> nat \<Rightarrow> string" where
  "bar_stroke_width step i = (if int i = step then ''4'' else ''2'')"

text \<open>\<^verbatim>\<open>array.map((value, index) => ({value, index, ...}))\<close>.\<close>

definition array_elements :: "jsval list \<Rightarrow> (jsval \<times> nat) list" where
  "array_elements xs = map (\<lambda>(i, v). (v, i)) (enumerate 0 xs)"

text \<open>
  The bars: the attributes set when a bar is created, then the ones its transition ends
  on, which are computed by the same callbacks.
\<close>

definition array_bars :: "jsval list \<Rightarrow> int \<Rightarrow> svg_elem list" where
  "array_bars xs step =
     chain (enter_append ''rect'' (array_elements xs))
       [attr_const ''class'' ''bar'',
        attr_fn ''fill'' (\<lambda>d i. bar_fill step i),
        attr_fn ''stroke'' (\<lambda>d i. bar_stroke step i),
        attr_fn ''stroke-width'' (\<lambda>d i. bar_stroke_width step i),
        attr_fn ''fill'' (\<lambda>d i. bar_fill step i),
        attr_fn ''stroke'' (\<lambda>d i. bar_stroke step i),
        attr_fn ''stroke-width'' (\<lambda>d i. bar_stroke_width step i)]"

definition array_value_labels :: "jsval list \<Rightarrow> svg_elem list" where
  "array_value_labels xs =
     chain (enter_append ''text'' (array_elements xs))
       [attr_const ''class'' ''value-label'',
        attr_const ''fill'' ''var(--text-color)'',
        text_fn (\<lambda>d i. [fst d])]"

definition array_index_labels :: "jsval list \<Rightarrow> svg_elem list" where
  "array_index_labels xs =
     chain (enter_append ''text'' (array_elements xs))
       [attr_const ''class'' ''index-label'',
        attr_const ''fill'' ''var(--text-color)'',
        text_fn (\<lambda>d i. [JNum (of_nat (snd d))])]"

text \<open>
  The two axis groups. Calling a d3 axis on a new group sets its \<^verbatim>\<open>fill\<close> to
  \<^verbatim>\<open>none\<close>.
\<close>

definition array_axes :: "svg_elem list" where
  "array_axes =
     chain (append_sel ''g'' g_group) [attr_const ''class'' ''axis'', attr_const ''fill'' ''none'']
     @ chain (append_sel ''g'' g_group) [attr_const ''class'' ''axis'', attr_const ''fill'' ''none'']"

text \<open>
  \<^verbatim>\<open>array.map\<close> is a \<^verbatim>\<open>TypeError\<close> on anything but an array. On an array nothing
  throws, whatever the elements are.
\<close>

definition renderArrayVisualization :: "jsval \<Rightarrow> int \<Rightarrow> error + svg_elem list" where
  "renderArrayVisualization array step =
     (case array of
        JArr xs \<Rightarrow>
          Inr (array_bars xs step @ array_value_labels xs @ array_index_labels xs @ array_axes)
      | _ \<Rightarrow> Inl TypeError)"

section \<open>Linked-list renderer (renderLinkedListVisualization)\<close>

text \<open>\<^verbatim>\<open>v || []\<close>.\<close>

definition or_empty :: "jsval \<Rightarrow> jsval" where
  "or_empty v = (if truthy v then v else JArr [])"

text \<open>
  \<^verbatim>\<open>connections.some(conn => conn.from === tail && conn.to === head)\<close> on the elements of
  an array: it stops at the first match, and reading \<^verbatim>\<open>conn.from\<close> throws on an element
  that is \<^verbatim>\<open>null\<close>.
\<close>

fun some_tail_to_head :: "jsval list \<Rightarrow> jsval \<Rightarrow> jsval \<Rightarrow> error + bool" where
  "some_tail_to_head [] tail head = Inr False"
| "some_tail_to_head (conn # cs) tail head =
     (case get_prop conn ''from'' of
        Inl e \<Rightarrow> Inl e
      | Inr f \<Rightarrow>
          if strict_eq f tail \<and> strict_eq (get_field conn ''to'') head then Inr True
          else some_tail_to_head cs tail head)"

text \<open>\<^verbatim>\<open>.some\<close> exists on arrays only; \<^verbatim>\<open>connections\<close> is truthy here.\<close>

definition isCircular :: "jsval \<Rightarrow> jsval \<Rightarrow> jsval \<Rightarrow> error + bool" where
  "isCircular connections tail head =
     (case connections of
        JArr cs \<Rightarrow> some_tail_to_head cs tail head
      | _ \<Rightarrow> Inl TypeError)"

text \<open>The styling callbacks of the node boxes and of the boxes of the array strip.\<close>

definition ll_fill :: "int \<Rightarrow> nat \<Rightarrow> string" where
  "ll_fill step i =
     (if int i = step then ''#f59e0b''
      else if int i < step then ''#10b981''
      else ''#3b82f6'')"

definition ll_stroke :: "int \<Rightarrow> nat \<Rightarrow> string" where
  "ll_stroke step i = (if int i = step then ''#f59e0b'' else ''#1e40af'')"

definition node_stroke_width :: "int \<Rightarrow> nat \<Rightarrow> string" where
  "node_stroke_width step i = (if int i = step then ''4'' else ''2'')"

definition box_stroke_width :: "int \<Rightarrow> nat \<Rightarrow> string" where
  "box_stroke_width step i = (if int i = step then ''3'' else ''2'')"

text \<open>
  The node groups, and what is appended to every group. \<^verbatim>\<open>nodeGroups.append\<close> keeps the
  index of the group, so the callbacks of the node box see the node's index.
\<close>

definition nodeGroups :: "jsval list \<Rightarrow> jsval selection" where
  "nodeGroups nodePositions =
     attr_const ''class'' ''linkedlist-node'' (enter_append ''g'' nodePositions)"

definition ll_node_boxes :: "jsval list \<Rightarrow> int \<Rightarrow> svg_elem list" where
  "ll_node_boxes nodePositions step =
     chain (append_sel ''rect'' (nodeGroups nodePositions))
       [attr_const ''class'' ''node-box'',
        attr_fn ''fill'' (\<lambda>d i. ll_fill step i),
        attr_fn ''stroke'' (\<lambda>d i. ll_stroke step i),
        attr_fn ''stroke-width'' (\<lambda>d i. node_stroke_width step i)]"

definition ll_node_parts :: "jsval list \<Rightarrow> svg_elem list" where
  "ll_node_parts nodePositions =
     chain (append_sel ''rect'' (nodeGroups nodePositions))
       [attr_const ''class'' ''data-box'', attr_const ''fill'' ''white'',
        attr_const ''stroke'' ''#666'', attr_const ''stroke-width'' ''1'']
     @ chain (append_sel ''rect'' (nodeGroups nodePositions))
       [attr_const ''class'' ''pointer-box'', attr_const ''fill'' ''#f8f9fa'',
        attr_const ''stroke'' ''#666'', attr_const ''stroke-width'' ''1'']
     @ chain (append_sel ''text'' (nodeGroups nodePositions))
       [attr_const ''class'' ''data-label'', attr_const ''fill'' ''#666'',
        text_fn (\<lambda>d i. [JStr ''Data''])]
     @ chain (append_sel ''text'' (nodeGroups nodePositions))
       [attr_const ''class'' ''node-value'', attr_const ''fill'' ''#333'',
        text_fn (\<lambda>d i. [get_field d ''value''])]
     @ chain (append_sel ''text'' (nodeGroups nodePositions))
       [attr_const ''class'' ''next-label'', attr_const ''fill'' ''#666'',
        text_fn (\<lambda>d i. [JStr ''Next''])]
     @ chain (append_sel ''text'' (nodeGroups nodePositions))
       [attr_const ''class'' ''node-id'', attr_const ''fill'' ''#333'',
        text_fn (\<lambda>d i. [get_field d ''id''])]"

text \<open>An arrowhead marker: \<^verbatim>\<open>defs\<close>, \<^verbatim>\<open>marker\<close> with the given id, and its \<^verbatim>\<open>path\<close>.\<close>

definition marker :: "string \<Rightarrow> string \<Rightarrow> svg_elem list" where
  "marker ident colour =
     chain (append_sel ''defs'' g_group) []
     @ chain (append_sel ''marker'' g_group) [attr_const ''id'' ident]
     @ chain (append_sel ''path'' g_group) [attr_const ''fill'' colour]"

text \<open>\<^verbatim>\<open>nodePositions.find(n => n.id === v)\<close>.\<close>

definition find_node :: "jsval list \<Rightarrow> jsval \<Rightarrow> jsval option" where
  "find_node nodePositions v = find (\<lambda>n. strict_eq (get_field n ''id'') v) nodePositions"

text \<open>
  \<^verbatim>\<open>nodePositions.find(n => n.id === conn[k])\<close>: the callback, and with it the read
  of \<^verbatim>\<open>conn[k]\<close>, runs only if there is a node to try.
\<close>

definition find_end :: "jsval list \<Rightarrow> jsval \<Rightarrow> string \<Rightarrow> error + jsval option" where
  "find_end nodePositions conn k =
     (if nodePositions = [] then Inr None
      else (case get_prop conn k of
              Inl e \<Rightarrow> Inl e
            | Inr v \<Rightarrow> Inr (find_node nodePositions v)))"

text \<open>
  \<^verbatim>\<open>connections.forEach\<close>: an arrow and its marker for every connection both ends of which
  are found among the nodes. An exception in one iteration ends the whole render.
\<close>

fun ll_arrows :: "jsval list \<Rightarrow> jsval list \<Rightarrow> error + svg_elem list" where
  "ll_arrows nodePositions [] = Inr []"
| "ll_arrows nodePositions (conn # cs) =
     (case find_end nodePositions conn ''from'' of
        Inl e \<Rightarrow> Inl e
      | Inr fromNode \<Rightarrow>
          (case find_end nodePositions conn ''to'' of
             Inl e \<Rightarrow> Inl e
           | Inr toNode \<Rightarrow>
               (let arrow =
                      (if fromNode \<noteq> None \<and> toNode \<noteq> None
                       then chain (append_sel ''line'' g_group)
                              [attr_const ''class'' ''linkedlist-arrow'',
                               attr_const ''stroke'' ''#666'', attr_const ''stroke-width'' ''2'',
                               attr_const ''marker-end'' ''url(#arrowhead)'']
                            @ marker ''arrowhead'' ''#666''
                       else [])
                in case ll_arrows nodePositions cs of
                     Inl e \<Rightarrow> Inl e
                   | Inr rest \<Rightarrow> Inr (arrow @ rest))))"

definition ll_head :: "jsval list \<Rightarrow> jsval \<Rightarrow> svg_elem list" where
  "ll_head nodePositions head =
     (if truthy head \<and> find_node nodePositions head \<noteq> None
      then chain (append_sel ''text'' g_group)
             [attr_const ''class'' ''head-pointer'', attr_const ''fill'' ''#ef4444'',
              text_fn (\<lambda>d i. [JStr ''HEAD''])]
           @ chain (append_sel ''line'' g_group)
             [attr_const ''class'' ''head-arrow'', attr_const ''stroke'' ''#ef4444'',
              attr_const ''stroke-width'' ''2'', attr_const ''marker-end'' ''url(#head-arrow)'']
           @ marker ''head-arrow'' ''#ef4444''
      else [])"

definition ll_tail :: "jsval list \<Rightarrow> jsval \<Rightarrow> svg_elem list" where
  "ll_tail nodePositions tail =
     (if truthy tail \<and> find_node nodePositions tail \<noteq> None
      then chain (append_sel ''text'' g_group)
             [attr_const ''class'' ''tail-pointer'', attr_const ''fill'' ''#8b5cf6'',
              text_fn (\<lambda>d i. [JStr ''TAIL''])]
      else [])"

text \<open>\<^verbatim>\<open>n.toString(16).toUpperCase()\<close> for a non-negative integer.\<close>

definition digit_char :: "nat \<Rightarrow> char" where
  "digit_char d = ''0123456789ABCDEF'' ! d"

function to_hex :: "nat \<Rightarrow> string" where
  "to_hex n = (if n < 16 then [digit_char n] else to_hex (n div 16) @ [digit_char (n mod 16)])"
  by pat_completeness auto
termination
  by (relation "measure id") auto

declare to_hex.simps [simp del]

text \<open>
  The array strip: \<^verbatim>\<open>nodePositions.forEach((node, index) => ...)\<close> appends, for every
  node, a box, its index, its value and a made-up address, each with \<^verbatim>\<open>g.append\<close>. The
  callbacks that style the box take their index argument from the selection
  \<^verbatim>\<open>g.append("rect")\<close>, not from the loop.
\<close>

definition array_strip_cell :: "int \<Rightarrow> jsval \<Rightarrow> nat \<Rightarrow> svg_elem list" where
  "array_strip_cell step node index =
     chain (append_sel ''rect'' g_group)
       [attr_const ''class'' ''array-box'',
        attr_fn ''fill'' (\<lambda>d i. ll_fill step i),
        attr_fn ''stroke'' (\<lambda>d i. ll_stroke step i),
        attr_fn ''stroke-width'' (\<lambda>d i. box_stroke_width step i)]
     @ chain (append_sel ''text'' g_group)
       [attr_const ''class'' ''array-index'', attr_const ''fill'' ''#666'',
        text_fn (\<lambda>d i. [JStr ''['', JNum (of_nat index), JStr '']''])]
     @ chain (append_sel ''text'' g_group)
       [attr_const ''class'' ''array-value'', attr_const ''fill'' ''white'',
        text_fn (\<lambda>d i. [get_field node ''value''])]
     @ chain (append_sel ''text'' g_group)
       [attr_const ''class'' ''memory-address'', attr_const ''fill'' ''#666'',
        text_fn (\<lambda>d i. [JStr ''0x'', JStr (to_hex (1000 + index * 8))])]"

definition array_strip :: "jsval list \<Rightarrow> int \<Rightarrow> svg_elem list" where
  "array_strip nodePositions step =
     concat (map (\<lambda>(index, node). array_strip_cell step node index) (enumerate 0 nodePositions))"

definition connection_lines :: "jsval list \<Rightarrow> svg_elem list" where
  "connection_lines nodePositions =
     concat (map (\<lambda>(index, node).
               chain (append_sel ''line'' g_group)
                 [attr_const ''class'' ''connection-line'', attr_const ''stroke'' ''#ccc'',
                  attr_const ''stroke-width'' ''1''])
             (enumerate 0 nodePositions))"

text \<open>\<^verbatim>\<open>listData.meta?.algorithm || 'Linked List'\<close>.\<close>

definition algorithm_label :: "jsval \<Rightarrow> jsval" where
  "algorithm_label listData =
     (let meta = get_field listData ''meta'';
          a = (if meta = JUndefined \<or> meta = JNull then JUndefined
               else get_field meta ''algorithm'')
      in if truthy a then a else JStr ''Linked List'')"

definition step_info :: "jsval \<Rightarrow> nat \<Rightarrow> int \<Rightarrow> svg_elem list" where
  "step_info listData n step =
     chain (append_sel ''text'' g_group)
       [attr_const ''class'' ''step-info'', attr_const ''fill'' ''var(--text-color)'',
        text_fn (\<lambda>d i. [JStr ''Step '', JNum (of_int (step + 1)), JStr '' | '',
                          algorithm_label listData, JStr '' | Nodes: '', JNum (of_nat n)])]"

text \<open>The indicator's label; the symbol in front of the word is left out.\<close>

definition circular_indicator :: "bool \<Rightarrow> svg_elem list" where
  "circular_indicator circular =
     (if circular
      then chain (append_sel ''text'' g_group)
             [attr_const ''class'' ''circular-indicator'', attr_const ''fill'' ''#f59e0b'',
              text_fn (\<lambda>d i. [JStr ''Circular''])]
      else [])"

text \<open>
  The renderer. Without list data or without \<^verbatim>\<open>nodes\<close> it draws nothing. \<^verbatim>\<open>nodes.map\<close>
  is a \<^verbatim>\<open>TypeError\<close> unless \<^verbatim>\<open>nodes\<close> is an array. The nodes are drawn as they come:
  \<^verbatim>\<open>nodePositions\<close> is \<^verbatim>\<open>nodes\<close> with coordinates added, which the model does not keep.
\<close>

definition renderLinkedListVisualization :: "jsval \<Rightarrow> int \<Rightarrow> error + svg_elem list" where
  "renderLinkedListVisualization listData step =
     (if \<not> truthy listData \<or> \<not> truthy (get_field listData ''nodes'') then Inr []
      else
        (let nodes = get_field listData ''nodes'';
             connections = or_empty (get_field listData ''connections'');
             head = get_field listData ''head'';
             tail = get_field listData ''tail''
         in case isCircular connections tail head of
              Inl e \<Rightarrow> Inl e
            | Inr circular \<Rightarrow>
                (case nodes of
                   JArr nodePositions \<Rightarrow>
                     (case ll_arrows nodePositions (case connections of JArr cs \<Rightarrow> cs | _ \<Rightarrow> []) of
                        Inl e \<Rightarrow> Inl e
                      | Inr arrows \<Rightarrow>
                          Inr (map snd (nodeGroups nodePositions)
                               @ ll_node_boxes nodePositions step
                               @ ll_node_parts nodePositions
                               @ arrows
                               @ ll_head nodePositions head
                               @ ll_tail nodePositions tail
                               @ chain (append_sel ''text'' g_group)
                                   [attr_const ''class'' ''array-title'',
                                    attr_const ''fill'' ''#374151'',
                                    text_fn (\<lambda>d i. [JStr ''Array Representation''])]
                               @ array_strip nodePositions step
                               @ connection_lines nodePositions
                               @ step_info listData (length nodePositions) step
                               @ circular_indicator circular))
                 | _ \<Rightarrow> Inl TypeError)))"

text \<open>The fills of the elements of one class, in scene order.\<close>

definition fills_of :: "string \<Rightarrow> svg_elem list \<Rightarrow> string option list" where
  "fills_of c scene = map (\<lambda>e. get_attr e ''fill'') (filter (has_class c) scene)"

text \<open>The value of the local constant \<^verbatim>\<open>isCircular\<close> for a payload.\<close>

definition circular_flag :: "jsval \<Rightarrow> error + bool" where
  "circular_flag listData =
     isCircular (or_empty (get_field listData ''connections''))
       (get_field listData ''tail'') (get_field listData ''head'')"

section \<open>Graph renderer (renderGraphVisualization)\<close>

text \<open>
  A node object as the renderer and d3's simulation use it. It is created as \<^verbatim>\<open>{ id }\<close>,
  so \<^verbatim>\<open>visited\<close> and \<^verbatim>\<open>current\<close> read as undefined. The coordinates are doubles in the
  source and real numbers here. A pin field is never written before the first drag or
  click (\<^verbatim>\<open>Unset\<close>), holds a coordinate while the node is pinned, and is \<^verbatim>\<open>null\<close> after
  a release (\<^verbatim>\<open>Cleared\<close>); d3 treats \<^verbatim>\<open>Unset\<close> and \<^verbatim>\<open>Cleared\<close> alike, as not pinned.
\<close>

datatype pin = Unset | Cleared | Pinned real

record graph_node =
  node_id :: jsval
  visited :: jsval
  current :: jsval
  pos_x :: real
  pos_y :: real
  fx :: pin
  fy :: pin

type_synonym edge = "jsval \<times> jsval"

text \<open>
  The seed layout: node \<^verbatim>\<open>i\<close> of \<^verbatim>\<open>n\<close> on a circle of radius 120 around the middle of
  the inner area, which is 540 by 340.
\<close>

definition seed_node :: "nat \<Rightarrow> nat \<Rightarrow> jsval \<Rightarrow> graph_node" where
  "seed_node n i v =
     (let angle = (2 * pi * real i) / real n
      in \<lparr>node_id = v, visited = JUndefined, current = JUndefined,
          pos_x = 540 / 2 + 120 * cos angle, pos_y = 340 / 2 + 120 * sin angle,
          fx = Unset, fy = Unset\<rparr>)"

definition seed_nodes :: "jsval list \<Rightarrow> graph_node list" where
  "seed_nodes ids = map (\<lambda>(i, v). seed_node (length ids) i v) (enumerate 0 ids)"

text \<open>\<^verbatim>\<open>for (i = 0; i < graphData.length - 1; i++) edges.push({source: graphData[i], target: graphData[i + 1]})\<close>.\<close>

definition sequential_edges :: "jsval list \<Rightarrow> edge list" where
  "sequential_edges graphData =
     map (\<lambda>i. (graphData ! i, graphData ! (i + 1))) [0 ..< length graphData - 1]"

text \<open>\<^verbatim>\<open>nodeNames.includes(v)\<close>: the names are strings, so only an equal string is included.\<close>

fun includes_name :: "string list \<Rightarrow> jsval \<Rightarrow> bool" where
  "includes_name nodeNames (JStr s) = (s \<in> set nodeNames)"
| "includes_name nodeNames v = False"

text \<open>
  The inner \<^verbatim>\<open>neighbors.forEach\<close>, pushing onto \<^verbatim>\<open>edges\<close>, and the outer
  \<^verbatim>\<open>nodeNames.forEach\<close>. \<^verbatim>\<open>graphData[nodeName] || []\<close> has to be an array, or
  \<^verbatim>\<open>forEach\<close> is a \<^verbatim>\<open>TypeError\<close>.
\<close>

definition push_neighbors :: "string list \<Rightarrow> string \<Rightarrow> jsval list \<Rightarrow> edge list \<Rightarrow> edge list" where
  "push_neighbors nodeNames nodeName neighbors edges =
     foldl (\<lambda>es neighborName.
              if includes_name nodeNames neighborName
              then es @ [(JStr nodeName, neighborName)] else es)
           edges neighbors"

fun adjacency_edges ::
  "jsval \<Rightarrow> string list \<Rightarrow> string list \<Rightarrow> edge list \<Rightarrow> error + edge list" where
  "adjacency_edges graphData nodeNames [] edges = Inr edges"
| "adjacency_edges graphData nodeNames (nodeName # rest) edges =
     (case or_empty (get_field graphData nodeName) of
        JArr neighbors \<Rightarrow>
          adjacency_edges graphData nodeNames rest
            (push_neighbors nodeNames nodeName neighbors edges)
      | _ \<Rightarrow> Inl TypeError)"

text \<open>Parsing the graph data: an array of ids, an adjacency object, or nothing usable.\<close>

definition graph_parse :: "jsval \<Rightarrow> error + (jsval list \<times> edge list)" where
  "graph_parse graphData =
     (case graphData of
        JArr ids \<Rightarrow> Inr (ids, sequential_edges ids)
      | JObj kvs \<Rightarrow>
          (let nodeNames = map fst kvs
           in case adjacency_edges graphData nodeNames nodeNames [] of
                Inl e \<Rightarrow> Inl e
              | Inr edges \<Rightarrow> Inr (map JStr nodeNames, edges))
      | _ \<Rightarrow> Inr ([], []))"

text \<open>
  What d3's link force does when the simulation takes it: an endpoint that is not an
  object is looked up among the node ids, and a miss throws \<^verbatim>\<open>node not found\<close>; then the
  \<^verbatim>\<open>index\<close> of the endpoint is read, which is a \<^verbatim>\<open>TypeError\<close> on \<^verbatim>\<open>null\<close>.
\<close>

definition link_end :: "jsval list \<Rightarrow> jsval \<Rightarrow> error + jsval" where
  "link_end ids v =
     (if v = JNull then Inl TypeError
      else if typeof_object v \<or> (\<exists>n \<in> set ids. strict_eq n v) then Inr v
      else Inl (NodeNotFound v))"

fun force_link :: "jsval list \<Rightarrow> edge list \<Rightarrow> error + edge list" where
  "force_link ids [] = Inr []"
| "force_link ids ((s, t) # es) =
     (case link_end ids s of
        Inl e \<Rightarrow> Inl e
      | Inr s' \<Rightarrow>
          (case link_end ids t of
             Inl e \<Rightarrow> Inl e
           | Inr t' \<Rightarrow>
               (case force_link ids es of
                  Inl e \<Rightarrow> Inl e
                | Inr rest \<Rightarrow> Inr ((s', t') # rest))))"

text \<open>The styling callbacks of a node circle.\<close>

definition node_fill :: "int \<Rightarrow> graph_node \<Rightarrow> string" where
  "node_fill step d =
     (if step = 0 then ''#3b82f6''
      else if truthy (visited d) then ''#10b981''
      else if truthy (current d) then ''#f59e0b''
      else ''#6b7280'')"

definition node_stroke :: "graph_node \<Rightarrow> string" where
  "node_stroke d = (if truthy (current d) then ''#f59e0b'' else ''#fff'')"

definition circle_stroke_width :: "graph_node \<Rightarrow> string" where
  "circle_stroke_width d = (if truthy (current d) then ''6'' else ''3'')"

text \<open>
  What the renderer leaves behind: the nodes and links handed to the simulation, the
  lines with the edges bound to them, and the whole scene.
\<close>

record graph_view =
  sim_nodes :: "graph_node list"
  links :: "edge selection"
  elements :: "svg_elem list"

text \<open>The container group and the groups that hold the lines, circles and labels.\<close>

definition graph_group :: "string \<Rightarrow> svg_elem list" where
  "graph_group c = chain (append_sel ''g'' g_group) [attr_const ''class'' c]"

definition graph_links :: "edge list \<Rightarrow> edge selection" where
  "graph_links edges =
     foldl (\<lambda>s f. f s) (enter_append ''line'' edges)
       [attr_const ''stroke-width'' ''2'', attr_const ''stroke'' ''#999'']"

definition graph_circles :: "graph_node list \<Rightarrow> int \<Rightarrow> svg_elem list" where
  "graph_circles nodes step =
     chain (enter_append ''circle'' nodes)
       [attr_fn ''fill'' (\<lambda>d i. node_fill step d),
        attr_fn ''stroke'' (\<lambda>d i. node_stroke d),
        attr_fn ''stroke-width'' (\<lambda>d i. circle_stroke_width d)]"

definition graph_labels :: "graph_node list \<Rightarrow> svg_elem list" where
  "graph_labels nodes =
     chain (enter_append ''text'' nodes)
       [text_fn (\<lambda>d i. [node_id d]), attr_const ''fill'' ''#fff'']"

text \<open>The tooltip; the symbols after Yes and No are left out.\<close>

definition graph_titles :: "graph_node list \<Rightarrow> svg_elem list" where
  "graph_titles nodes =
     chain (enter_append ''title'' nodes)
       [text_fn (\<lambda>d i. [node_id d,
                          JStr (if truthy (visited d) then ''Visited: Yes'' else ''Visited: No''),
                          JStr ''Neighbors: None''])]"

definition graph_step_info :: "int \<Rightarrow> nat \<Rightarrow> nat \<Rightarrow> svg_elem list" where
  "graph_step_info step n m =
     chain (append_sel ''text'' g_group)
       [attr_const ''fill'' ''var(--text-color)'',
        text_fn (\<lambda>d i. [JStr ''Step '', JNum (of_int (step + 1)), JStr '' | Nodes: '',
                          JNum (of_nat n), JStr '' | Edges: '', JNum (of_nat m)])]"

definition renderGraphVisualization :: "jsval \<Rightarrow> int \<Rightarrow> error + graph_view" where
  "renderGraphVisualization graphData step =
     (case graph_parse graphData of
        Inl e \<Rightarrow> Inl e
      | Inr (ids, edges) \<Rightarrow>
          if length ids = 0 then Inr \<lparr>sim_nodes = [], links = [], elements = []\<rparr>
          else
            (let nodes = seed_nodes ids
             in case force_link ids edges of
                  Inl e \<Rightarrow> Inl e
                | Inr resolved \<Rightarrow>
                    Inr \<lparr>sim_nodes = nodes,
                         links = graph_links resolved,
                         elements =
                           graph_group ''graph-container-group''
                           @ graph_group ''links''
                           @ map snd (graph_links resolved)
                           @ graph_group ''nodes''
                           @ graph_circles nodes step
                           @ graph_group ''labels''
                           @ graph_labels nodes
                           @ graph_titles nodes
                           @ graph_step_info step (length nodes) (length edges)\<rparr>))"

subsection \<open>Click and drag on a node\<close>

text \<open>
  The handlers write fields of the node object they are called with, and the drag
  handlers also set the simulation's alpha target and restart it. The state is the list
  of node objects, the alpha target and the number of restarts; a handler is given the
  index of its node. \<^verbatim>\<open>on_click\<close> is the click listener up to the start of the pulse
  (its argument is \<^verbatim>\<open>event.defaultPrevented\<close>), \<^verbatim>\<open>on_pulse_end\<close> the \<^verbatim>\<open>end\<close> listener
  of the second transition. The pulse itself only sets the circle's \<^verbatim>\<open>transform\<close>.
\<close>

record simulation =
  nodes :: "graph_node list"
  alphaTarget :: real
  restarts :: nat

definition update_node :: "nat \<Rightarrow> (graph_node \<Rightarrow> graph_node) \<Rightarrow> simulation \<Rightarrow> simulation" where
  "update_node i f sim =
     (if i < length (nodes sim) then sim\<lparr>nodes := (nodes sim)[i := f (nodes sim ! i)]\<rparr> else sim)"

definition on_click :: "bool \<Rightarrow> nat \<Rightarrow> simulation \<Rightarrow> simulation" where
  "on_click defaultPrevented i sim =
     (if defaultPrevented then sim
      else update_node i (\<lambda>d. d\<lparr>fx := Pinned (pos_x d), fy := Pinned (pos_y d)\<rparr>) sim)"

definition pulse_transforms :: "string list" where
  "pulse_transforms = [''translate(0, -20)'', ''translate(0, 0)'']"

definition on_pulse_end :: "nat \<Rightarrow> simulation \<Rightarrow> simulation" where
  "on_pulse_end i sim = update_node i (\<lambda>d. d\<lparr>fx := Cleared, fy := Cleared\<rparr>) sim"

definition drag_start :: "bool \<Rightarrow> nat \<Rightarrow> simulation \<Rightarrow> simulation" where
  "drag_start active i sim =
     update_node i (\<lambda>d. d\<lparr>fx := Pinned (pos_x d), fy := Pinned (pos_y d)\<rparr>)
       (if \<not> active then sim\<lparr>alphaTarget := 0.3, restarts := Suc (restarts sim)\<rparr> else sim)"

definition drag :: "real \<Rightarrow> real \<Rightarrow> nat \<Rightarrow> simulation \<Rightarrow> simulation" where
  "drag ex ey i sim = update_node i (\<lambda>d. d\<lparr>fx := Pinned ex, fy := Pinned ey\<rparr>) sim"

definition drag_end :: "bool \<Rightarrow> nat \<Rightarrow> simulation \<Rightarrow> simulation" where
  "drag_end active i sim =
     update_node i (\<lambda>d. d\<lparr>fx := Cleared, fy := Cleared\<rparr>)
       (if \<not> active then sim\<lparr>alphaTarget := 0\<rparr> else sim)"

text \<open>
  A tick of d3's simulation, as far as the handlers can observe it: the forces move every
  coordinate that is not pinned, and a pinned coordinate is put back on its pin. What the
  forces compute is not modelled; \<^verbatim>\<open>move j\<close> stands for the position they give node
  \<^verbatim>\<open>j\<close> in this tick. A tick changes neither the pin fields nor the alpha target.
\<close>

type_synonym move = "nat \<Rightarrow> real \<times> real"

definition tick_node :: "real \<times> real \<Rightarrow> graph_node \<Rightarrow> graph_node" where
  "tick_node p d =
     d\<lparr>pos_x := (case fx d of Pinned v \<Rightarrow> v | _ \<Rightarrow> fst p),
       pos_y := (case fy d of Pinned v \<Rightarrow> v | _ \<Rightarrow> snd p)\<rparr>"

definition sim_tick :: "move \<Rightarrow> simulation \<Rightarrow> simulation" where
  "sim_tick m sim =
     sim\<lparr>nodes := map (\<lambda>(j, d). tick_node (m j) d) (enumerate 0 (nodes sim))\<rparr>"

definition sim_ticks :: "move list \<Rightarrow> simulation \<Rightarrow> simulation" where
  "sim_ticks ms sim = foldl (\<lambda>s m. sim_tick m s) sim ms"

text \<open>
  A click on a circle, as the browser and d3-drag deliver it. d3-drag emits \<^verbatim>\<open>start\<close> on
  mousedown and \<^verbatim>\<open>end\<close> on mouseup also when the pointer has not moved, with
  \<^verbatim>\<open>event.active\<close> 0 for a gesture that is the only one; the click event follows, its
  default not prevented because nothing was dragged; the pulse ends a second later. The
  simulation may tick in each of the three intervals.
\<close>

definition mouse_down :: "move list \<Rightarrow> nat \<Rightarrow> simulation \<Rightarrow> simulation" where
  "mouse_down held i sim = sim_ticks held (drag_start False i sim)"

definition mouse_up :: "move list \<Rightarrow> nat \<Rightarrow> simulation \<Rightarrow> simulation" where
  "mouse_up idle i sim = sim_ticks idle (drag_end False i sim)"

definition pulse :: "move list \<Rightarrow> nat \<Rightarrow> simulation \<Rightarrow> simulation" where
  "pulse pulsing i sim = sim_ticks pulsing (on_click False i sim)"

definition click_gesture ::
  "move list \<Rightarrow> move list \<Rightarrow> move list \<Rightarrow> nat \<Rightarrow> simulation \<Rightarrow> simulation" where
  "click_gesture held idle pulsing i sim =
     on_pulse_end i (pulse pulsing i (mouse_up idle i (mouse_down held i sim)))"

section \<open>Tree renderer (renderTreeVisualization)\<close>

definition renderTreeVisualization :: "jsval \<Rightarrow> int \<Rightarrow> error + svg_elem list" where
  "renderTreeVisualization treeData step =
     (case treeData of
        JArr vs \<Rightarrow>
          Inr (chain (enter_append ''circle'' vs)
                 [attr_const ''class'' ''tree-node'', attr_const ''fill'' ''#3b82f6'',
                  attr_const ''stroke'' ''#1e40af'', attr_const ''stroke-width'' ''2'']
               @ chain (enter_append ''text'' vs)
                 [attr_const ''class'' ''tree-label'', attr_const ''fill'' ''white'',
                  text_fn (\<lambda>d i. [d])])
      | _ \<Rightarrow> Inl TypeError)"

section \<open>The component (AlgorithmVisualizer)\<close>

datatype kind = ArrayKind | GraphKind | TreeKind | LinkedListKind

text \<open>
  The dispatch of the drawing effect: the \<^verbatim>\<open>type\<close> tag if it is one of the four known
  strings, else the shape of \<^verbatim>\<open>data\<close>, else nothing. Reading \<^verbatim>\<open>data.type\<close> throws when
  the payload itself is missing.
\<close>

definition classify :: "jsval \<Rightarrow> error + kind option" where
  "classify data =
     (case get_prop data ''type'' of
        Inl e \<Rightarrow> Inl e
      | Inr ty \<Rightarrow>
          if strict_eq ty (JStr ''array'') then Inr (Some ArrayKind)
          else if strict_eq ty (JStr ''graph'') then Inr (Some GraphKind)
          else if strict_eq ty (JStr ''tree'') then Inr (Some TreeKind)
          else if strict_eq ty (JStr ''linkedlist'') then Inr (Some LinkedListKind)
          else
            (let d = get_field data ''data''
             in if truthy d \<and> typeof_object d \<and> \<not> isArray d \<and> has_key ''nodes'' d
                then Inr (Some LinkedListKind)
                else if isArray d then Inr (Some ArrayKind)
                else Inr None))"

definition draw :: "jsval \<Rightarrow> int \<Rightarrow> error + svg_elem list" where
  "draw data step =
     (case classify data of
        Inl e \<Rightarrow> Inl e
      | Inr None \<Rightarrow> Inr []
      | Inr (Some ArrayKind) \<Rightarrow> renderArrayVisualization (get_field data ''data'') step
      | Inr (Some GraphKind) \<Rightarrow>
          (case renderGraphVisualization (get_field data ''data'') step of
             Inl e \<Rightarrow> Inl e
           | Inr view \<Rightarrow> Inr (elements view))
      | Inr (Some TreeKind) \<Rightarrow> renderTreeVisualization (get_field data ''data'') step
      | Inr (Some LinkedListKind) \<Rightarrow>
          renderLinkedListVisualization (get_field data ''data'') step)"

text \<open>
  The markup around the drawing. Its heading is
  \<^verbatim>\<open>data.type.charAt(0).toUpperCase() + data.type.slice(1)\<close>, followed by the word
  Visualization; only a string has \<^verbatim>\<open>charAt\<close>. The upper-casing is modelled for ASCII
  letters.
\<close>

definition toUpperCase :: "char \<Rightarrow> char" where
  "toUpperCase c =
     (let n = (of_char c :: nat) in if 97 \<le> n \<and> n \<le> 122 then char_of (n - 32) else c)"

definition heading :: "jsval \<Rightarrow> error + string" where
  "heading data =
     (case get_prop data ''type'' of
        Inl e \<Rightarrow> Inl e
      | Inr (JStr s) \<Rightarrow>
          Inr ((case s of [] \<Rightarrow> [] | c # cs \<Rightarrow> toUpperCase c # cs) @ '' Visualization'')
      | Inr _ \<Rightarrow> Inl TypeError)"

text \<open>
  The footer shows \<^verbatim>\<open>data.data.length\<close> and \<^verbatim>\<open>data.data[currentStep] || 'N/A'\<close>. Reading
  either throws when \<^verbatim>\<open>data.data\<close> is undefined or \<^verbatim>\<open>null\<close>, and React refuses to
  render a plain object as a child. The status label, computed from the same length by
  comparisons that cannot throw, is not modelled.
\<close>

function to_dec :: "nat \<Rightarrow> string" where
  "to_dec n = (if n < 10 then [digit_char n] else to_dec (n div 10) @ [digit_char (n mod 10)])"
  by pat_completeness auto
termination
  by (relation "measure id") auto

declare to_dec.simps [simp del]

definition property_key :: "int \<Rightarrow> string" where
  "property_key i = (if i < 0 then CHR ''-'' # to_dec (nat (- i)) else to_dec (nat i))"

text \<open>\<^verbatim>\<open>v[i]\<close> for an integer \<^verbatim>\<open>i\<close> and a value that is neither undefined nor \<^verbatim>\<open>null\<close>.\<close>

fun js_index :: "jsval \<Rightarrow> int \<Rightarrow> jsval" where
  "js_index (JArr xs) i = (if 0 \<le> i \<and> i < int (length xs) then xs ! nat i else JUndefined)"
| "js_index (JStr s) i = (if 0 \<le> i \<and> i < int (length s) then JStr [s ! nat i] else JUndefined)"
| "js_index (JObj kvs) i =
     (case map_of kvs (property_key i) of None \<Rightarrow> JUndefined | Some v \<Rightarrow> v)"
| "js_index v i = JUndefined"

fun valid_child :: "jsval \<Rightarrow> bool" where
  "valid_child (JObj kvs) = False"
| "valid_child (JArr xs) = list_all valid_child xs"
| "valid_child v = True"

definition footer :: "jsval \<Rightarrow> int \<Rightarrow> error + (jsval \<times> jsval)" where
  "footer data step =
     (case js_length (get_field data ''data'') of
        Inl e \<Rightarrow> Inl e
      | Inr n \<Rightarrow>
          (let element = js_index (get_field data ''data'') step;
               shown = (if truthy element then element else JStr ''N/A'')
           in if valid_child n \<and> valid_child shown then Inr (n, shown)
              else Inl InvalidChild))"

text \<open>
  React renders the markup first and runs the effect after the commit, so an exception in
  the markup leaves nothing mounted and the effect never runs.
\<close>

definition AlgorithmVisualizer ::
  "jsval \<Rightarrow> int \<Rightarrow> error + (string \<times> (jsval \<times> jsval) \<times> svg_elem list)" where
  "AlgorithmVisualizer data step =
     (case heading data of
        Inl e \<Rightarrow> Inl e
      | Inr h \<Rightarrow>
          (case footer data step of
             Inl e \<Rightarrow> Inl e
           | Inr f \<Rightarrow>
               (case draw data step of
                  Inl e \<Rightarrow> Inl e
                | Inr scene \<Rightarrow> Inr (h, f, scene))))"

text \<open>The neighbours an adjacency object lists for a name: \<^verbatim>\<open>graphData[nodeName] || []\<close>.\<close>

definition neighbors_of :: "jsval \<Rightarrow> string \<Rightarrow> jsval list" where
  "neighbors_of graphData nodeName =
     (case or_empty (get_field graphData nodeName) of JArr neighbors \<Rightarrow> neighbors | _ \<Rightarrow> [])"

section \<open>Example states\<close>

text \<open>A step with a given description, and a controller as playback leaves it: playing, with one live timer.\<close>

definition step_of :: "string \<Rightarrow> AlgorithmStep" where
  "step_of d = \<lparr>stepNo = 1, description = d, code = '''', explanation = ''''\<rparr>"

definition playing_at :: "AlgorithmStep list \<Rightarrow> int \<Rightarrow> controller" where
  "playing_at ss k =
     \<lparr>steps = ss, currentStep = k, isPlaying = True, playbackSpeed = 1000,
      intervalRef = Some 1, timers = [1], timersCreated = 1, synthCalls = [], voices = []\<rparr>"

text \<open>
  The linked list of three nodes \<^verbatim>\<open>n1\<close>, \<^verbatim>\<open>n2\<close>, \<^verbatim>\<open>n3\<close> with head \<^verbatim>\<open>n1\<close> and tail
  \<^verbatim>\<open>n3\<close>, with or without the connection that closes the circle.
\<close>

definition list_node :: "rat \<Rightarrow> string \<Rightarrow> jsval" where
  "list_node v i = JObj [(''value'', JNum v), (''id'', JStr i)]"

definition list_conn :: "string \<Rightarrow> string \<Rightarrow> jsval" where
  "list_conn a b = JObj [(''from'', JStr a), (''to'', JStr b)]"

definition example_list :: "bool \<Rightarrow> jsval" where
  "example_list closing =
     JObj [(''nodes'', JArr [list_node 1 ''n1'', list_node 2 ''n2'', list_node 3 ''n3'']),
           (''connections'',
              JArr ([list_conn ''n1'' ''n2'', list_conn ''n2'' ''n3'']
                    @ (if closing then [list_conn ''n3'' ''n1''] else []))),
           (''head'', JStr ''n1''),
           (''tail'', JStr ''n3'')]"

text \<open>The array of the spec's scenario, and a payload without a \<^verbatim>\<open>type\<close> that carries it.\<close>

definition example_array :: jsval where
  "example_array = JArr [JNum 4, JNum 2, JNum 3, JNum 2, JNum 1]"

definition untagged :: "jsval \<Rightarrow> jsval" where
  "untagged d = JObj [(''data'', d)]"

text \<open>An adjacency object in which \<^verbatim>\<open>A\<close> lists a neighbour \<^verbatim>\<open>Z\<close> that is no node.\<close>

definition example_graph :: jsval where
  "example_graph =
     JObj [(''A'', JArr [JStr ''B'', JStr ''Z'']), (''B'', JArr [JStr ''A''])]"

text \<open>A simulation of two nodes that have never been pinned.\<close>

definition example_simulation :: simulation where
  "example_simulation =
     \<lparr>nodes =
        [\<lparr>node_id = JStr ''A'', visited = JUndefined, current = JUndefined,
          pos_x = 1, pos_y = 2, fx = Unset, fy = Unset\<rparr>,
         \<lparr>node_id = JStr ''B'', visited = JUndefined, current = JUndefined,
          pos_x = 3, pos_y = 4, fx = Unset, fy = Unset\<rparr>],
      alphaTarget = 0, restarts = 0\<rparr>"

section \<open>Properties of the playback controller\<close>

lemma effect_fields [simp]:
  "steps (playback_effect st) = steps st"
  "currentStep (playback_effect st) = currentStep st"
  "playbackSpeed (playback_effect st) = playbackSpeed st"
  "synthCalls (playback_effect st) = synthCalls st"
  "voices (playback_effect st) = voices st"
  "last_index (playback_effect st) = last_index st"
  by (simp_all add: playback_effect_def setInterval_def setIsPlaying_def last_index_def Let_def)

lemma clear_ref_fields [simp]:
  "steps (clear_ref st) = steps st"
  "currentStep (clear_ref st) = currentStep st"
  "playbackSpeed (clear_ref st) = playbackSpeed st"
  "isPlaying (clear_ref st) = isPlaying st"
  "synthCalls (clear_ref st) = synthCalls st"
  "voices (clear_ref st) = voices st"
  "intervalRef (clear_ref st) = intervalRef st"
  "timersCreated (clear_ref st) = timersCreated st"
  "last_index (clear_ref st) = last_index st"
  by (simp_all add: clear_ref_def clearInterval_def last_index_def split: option.splits)

lemma effect_isPlaying:
  "isPlaying (playback_effect st) = (isPlaying st \<and> currentStep st < last_index st)"
  by (simp add: playback_effect_def setInterval_def setIsPlaying_def Let_def)

lemma effect_timersCreated:
  "timersCreated (playback_effect st) =
     (if isPlaying st \<and> currentStep st < last_index st then Suc (timersCreated st) else timersCreated st)"
  by (simp add: playback_effect_def setInterval_def setIsPlaying_def Let_def)

lemma settle_unfold:
  "settle st =
     (if isPlaying st \<and> currentStep st < last_index st then setInterval (clear_ref st)
      else if isPlaying st then clear_ref (setIsPlaying False (clear_ref st))
      else playback_effect (clear_ref st))"
proof (cases "isPlaying st \<and> currentStep st < last_index st")
  case True
  then have "\<not> deps_changed st (playback_effect (clear_ref st))"
    by (simp add: deps_changed_def effect_isPlaying)
  then show ?thesis using True
    by (subst settle.simps) (simp add: Let_def playback_effect_def)
next
  case False
  show ?thesis
  proof (cases "isPlaying st")
    case True
    with False have ge: "currentStep st \<ge> last_index st" by simp
    let ?s1 = "playback_effect (clear_ref st)"
    have s1: "?s1 = setIsPlaying False (clear_ref st)"
      using True ge by (simp add: playback_effect_def)
    have ch: "deps_changed st ?s1" using True ge by (simp add: deps_changed_def effect_isPlaying)
    have "settle st = settle ?s1" using ch by (subst settle.simps) (simp add: Let_def)
    also have "settle ?s1 = playback_effect (clear_ref ?s1)"
      by (subst settle.simps) (simp add: Let_def deps_changed_def effect_isPlaying s1 setIsPlaying_def)
    also have "\<dots> = clear_ref ?s1"
      using ge by (simp add: playback_effect_def s1 setIsPlaying_def last_index_def clear_ref_def clearInterval_def split: option.splits)
    finally show ?thesis using True False s1 by simp
  next
    case F: False
    then have "\<not> deps_changed st (playback_effect (clear_ref st))"
      by (simp add: deps_changed_def effect_isPlaying)
    then show ?thesis using F
      by (subst settle.simps) (simp add: Let_def)
  qed
qed


lemma narrate_fields [simp]:
  "steps (narrate i st) = steps st"
  "currentStep (narrate i st) = currentStep st"
  "playbackSpeed (narrate i st) = playbackSpeed st"
  "isPlaying (narrate i st) = isPlaying st"
  "voices (narrate i st) = voices st"
  "intervalRef (narrate i st) = intervalRef st"
  "timers (narrate i st) = timers st"
  "timersCreated (narrate i st) = timersCreated st"
  "last_index (narrate i st) = last_index st"
  by (simp_all add: narrate_def synth_def last_index_def split: option.splits)

lemma handleNext_fields [simp]:
  "steps (handleNext st) = steps st"
  "playbackSpeed (handleNext st) = playbackSpeed st"
  "isPlaying (handleNext st) = isPlaying st"
  "timersCreated (handleNext st) = timersCreated st"
  "last_index (handleNext st) = last_index st"
  by (simp_all add: handleNext_def onStepChange_def Let_def last_index_def)

lemma handleNext_currentStep:
  "currentStep (handleNext st) =
     (if currentStep st < last_index st then currentStep st + 1 else currentStep st)"
  by (simp add: handleNext_def onStepChange_def Let_def)

lemma settle_fields [simp]:
  "steps (settle st) = steps st"
  "currentStep (settle st) = currentStep st"
  "playbackSpeed (settle st) = playbackSpeed st"
  by (simp_all add: settle_unfold setInterval_def setIsPlaying_def Let_def)

lemma settle_last_index [simp]: "last_index (settle st) = last_index st"
  by (simp add: last_index_def)

lemma settle_isPlaying:
  "isPlaying (settle st) = (isPlaying st \<and> currentStep st < last_index st)"
  by (simp add: settle_unfold setInterval_def setIsPlaying_def Let_def effect_isPlaying)

lemma settle_timersCreated:
  "timersCreated (settle st) =
     (if isPlaying st \<and> currentStep st < last_index st then Suc (timersCreated st)
      else timersCreated st)"
  by (simp add: settle_unfold setInterval_def setIsPlaying_def Let_def effect_timersCreated)

lemma dispatch_next_currentStep:
  "currentStep (dispatch handleNext st) =
     (if currentStep st < last_index st then currentStep st + 1 else currentStep st)"
  by (simp add: dispatch_def Let_def handleNext_currentStep)

lemma dispatch_next_steps [simp]:
  "last_index (dispatch handleNext st) = last_index st"
  by (simp add: dispatch_def Let_def)

lemma mount_fields [simp]:
  "currentStep (mount ss vs) = 0" "last_index (mount ss vs) = int (length ss) - 1"
  by (simp_all add: mount_def last_index_def)

lemma iterate_next:
  "last_index ((dispatch handleNext ^^ n) st) = last_index st \<and>
   currentStep ((dispatch handleNext ^^ n) st) =
     (if currentStep st < last_index st then min (currentStep st + int n) (last_index st)
      else currentStep st)"
  by (induction n) (auto simp: dispatch_next_currentStep)

text \<open>
  C2. Below the last index a \<^verbatim>\<open>next\<close> raises \<^verbatim>\<open>currentStep\<close> by exactly one; at or
  beyond the last index it changes nothing. Playback stops by itself at the end: a
  \<^verbatim>\<open>next\<close> that arrives at the last index while playing leaves the controller not
  playing and creates no new timer, and whenever the effect runs in a playing state at
  the last index it switches to not playing without moving the index. From a fresh mount,
  \<^verbatim>\<open>n\<close> calls of \<^verbatim>\<open>next\<close> give index \<^verbatim>\<open>min n (length - 1)\<close> (0 for an empty list).
\<close>

theorem next_increments_until_last_then_auto_stops:
  "(currentStep st < last_index st \<longrightarrow>
      currentStep (dispatch handleNext st) = currentStep st + 1)
   \<and> (last_index st \<le> currentStep st \<longrightarrow> dispatch handleNext st = st)
   \<and> (isPlaying st \<and> currentStep st + 1 = last_index st \<longrightarrow>
        \<not> isPlaying (dispatch handleNext st)
        \<and> timersCreated (dispatch handleNext st) = timersCreated st)
   \<and> (isPlaying st \<and> last_index st \<le> currentStep st \<longrightarrow>
        \<not> isPlaying (settle st) \<and> currentStep (settle st) = currentStep st
        \<and> timersCreated (settle st) = timersCreated st)
   \<and> currentStep ((dispatch handleNext ^^ n) (mount ss vs))
        = max 0 (min (int n) (int (length ss) - 1))"
proof (intro conjI impI)
  assume "currentStep st < last_index st"
  then show "currentStep (dispatch handleNext st) = currentStep st + 1"
    by (simp add: dispatch_next_currentStep)
next
  assume "last_index st \<le> currentStep st"
  then have "handleNext st = st" by (simp add: handleNext_def)
  then show "dispatch handleNext st = st" by (simp add: dispatch_def deps_changed_def)
next
  assume a: "isPlaying st \<and> currentStep st + 1 = last_index st"
  then have ch: "deps_changed st (handleNext st)"
    by (simp add: deps_changed_def handleNext_currentStep)
  have d: "dispatch handleNext st = settle (handleNext st)"
    using ch by (simp add: dispatch_def)
  show "\<not> isPlaying (dispatch handleNext st)"
    using a by (simp add: d settle_isPlaying handleNext_currentStep)
  show "timersCreated (dispatch handleNext st) = timersCreated st"
    using a by (simp add: d settle_timersCreated handleNext_currentStep)
next
  assume a: "isPlaying st \<and> last_index st \<le> currentStep st"
  then show "\<not> isPlaying (settle st)" by (simp add: settle_isPlaying)
  show "currentStep (settle st) = currentStep st" by simp
  show "timersCreated (settle st) = timersCreated st" using a by (simp add: settle_timersCreated)
next
  show "currentStep ((dispatch handleNext ^^ n) (mount ss vs))
        = max 0 (min (int n) (int (length ss) - 1))"
    using iterate_next [of n "mount ss vs"] by auto
qed


text \<open>
  The hypotheses of C2 at a two-step list: playing at index 0 (below the last index, one
  step before it) and playing at index 1 (the last index).
\<close>

theorem next_increments_until_last_then_auto_stops_witness:
  "currentStep (playing_at [step_of ''a'', step_of ''b''] 0)
     < last_index (playing_at [step_of ''a'', step_of ''b''] 0)
   \<and> isPlaying (playing_at [step_of ''a'', step_of ''b''] 0)
   \<and> currentStep (playing_at [step_of ''a'', step_of ''b''] 0) + 1
       = last_index (playing_at [step_of ''a'', step_of ''b''] 0)
   \<and> currentStep (dispatch handleNext (playing_at [step_of ''a'', step_of ''b''] 0)) = 1
   \<and> \<not> isPlaying (dispatch handleNext (playing_at [step_of ''a'', step_of ''b''] 0))
   \<and> isPlaying (playing_at [step_of ''a'', step_of ''b''] 1)
   \<and> last_index (playing_at [step_of ''a'', step_of ''b''] 1)
       \<le> currentStep (playing_at [step_of ''a'', step_of ''b''] 1)
   \<and> dispatch handleNext (playing_at [step_of ''a'', step_of ''b''] 1)
       = playing_at [step_of ''a'', step_of ''b''] 1
   \<and> \<not> isPlaying (settle (playing_at [step_of ''a'', step_of ''b''] 1))"
  using next_increments_until_last_then_auto_stops
          [of "playing_at [step_of ''a'', step_of ''b''] 0" 0 "[]" "[]"]
        next_increments_until_last_then_auto_stops
          [of "playing_at [step_of ''a'', step_of ''b''] 1" 0 "[]" "[]"]
  by (simp add: playing_at_def last_index_def)

lemma handlePlay_fields [simp]:
  "steps (handlePlay st) = steps st"
  "playbackSpeed (handlePlay st) = playbackSpeed st"
  "isPlaying (handlePlay st)"
  "timers (handlePlay st) = timers st"
  "timersCreated (handlePlay st) = timersCreated st"
  "last_index (handlePlay st) = last_index st"
  by (simp_all add: handlePlay_def onStepChange_def setIsPlaying_def last_index_def)

lemma handlePlay_currentStep:
  "currentStep (handlePlay st) = (if last_index st \<le> currentStep st then 0 else currentStep st)"
  by (simp add: handlePlay_def onStepChange_def setIsPlaying_def)

lemma clear_ref_timers: "set (timers (clear_ref st)) \<subseteq> set (timers st)"
  by (auto simp: clear_ref_def clearInterval_def split: option.splits)

lemma settle_timers_stopped:
  "last_index st \<le> currentStep st \<Longrightarrow> set (timers (settle st)) \<subseteq> set (timers st)"
  using clear_ref_timers [of st] clear_ref_timers [of "setIsPlaying False (clear_ref st)"]
  by (auto simp: settle_unfold playback_effect_def setIsPlaying_def)

text \<open>
  C10. \<^verbatim>\<open>play\<close> at (or beyond) the last index first puts \<^verbatim>\<open>currentStep\<close> back to 0.
  With a single step, pressing play in the stopped state ends not playing, at index 0,
  with no \<^verbatim>\<open>setInterval\<close> call made and no timer added; if no timer was live before,
  no tick can fire afterwards.
\<close>

theorem play_at_last_resets_and_single_step_never_ticks:
  "(last_index st \<le> currentStep st \<longrightarrow>
      currentStep (handlePlay st) = 0 \<and> isPlaying (handlePlay st))
   \<and> (length (steps st) = 1 \<and> currentStep st = 0 \<and> \<not> isPlaying st \<longrightarrow>
        \<not> isPlaying (dispatch handlePlay st)
        \<and> currentStep (dispatch handlePlay st) = 0
        \<and> timersCreated (dispatch handlePlay st) = timersCreated st
        \<and> set (timers (dispatch handlePlay st)) \<subseteq> set (timers st)
        \<and> (timers st = [] \<longrightarrow>
             (\<forall>h. tick h (dispatch handlePlay st) = dispatch handlePlay st)))"
proof (intro conjI impI)
  assume "last_index st \<le> currentStep st"
  then show "currentStep (handlePlay st) = 0" by (simp add: handlePlay_currentStep)
  show "isPlaying (handlePlay st)" by simp
next
  assume a: "length (steps st) = 1 \<and> currentStep st = 0 \<and> \<not> isPlaying st"
  then have li: "last_index st = 0" by (simp add: last_index_def)
  have ch: "deps_changed st (handlePlay st)" using a by (simp add: deps_changed_def)
  have d: "dispatch handlePlay st = settle (handlePlay st)"
    using ch by (simp add: dispatch_def)
  have cs: "currentStep (handlePlay st) = 0" using a li by (simp add: handlePlay_currentStep)
  show np: "\<not> isPlaying (dispatch handlePlay st)"
    by (simp add: d settle_isPlaying cs li)
  show "currentStep (dispatch handlePlay st) = 0" by (simp add: d cs)
  show "timersCreated (dispatch handlePlay st) = timersCreated st"
    by (simp add: d settle_timersCreated cs li)
  show sub: "set (timers (dispatch handlePlay st)) \<subseteq> set (timers st)"
    using settle_timers_stopped [of "handlePlay st"] by (simp add: d cs li)
  assume "timers st = []"
  with sub have "timers (dispatch handlePlay st) = []" by simp
  then show "\<forall>h. tick h (dispatch handlePlay st) = dispatch handlePlay st"
    by (simp add: tick_def)
qed

text \<open>The hypotheses of C10 at a freshly mounted controller with one step.\<close>

theorem play_at_last_resets_and_single_step_never_ticks_witness:
  "last_index (mount [step_of ''only''] []) \<le> currentStep (mount [step_of ''only''] [])
   \<and> length (steps (mount [step_of ''only''] [])) = 1
   \<and> currentStep (mount [step_of ''only''] []) = 0
   \<and> \<not> isPlaying (mount [step_of ''only''] [])
   \<and> timers (mount [step_of ''only''] []) = []
   \<and> \<not> isPlaying (dispatch handlePlay (mount [step_of ''only''] []))
   \<and> timersCreated (dispatch handlePlay (mount [step_of ''only''] [])) = 0
   \<and> tick 1 (dispatch handlePlay (mount [step_of ''only''] []))
       = dispatch handlePlay (mount [step_of ''only''] [])"
  using play_at_last_resets_and_single_step_never_ticks [of "mount [step_of ''only''] []"]
  by (simp add: mount_def playback_effect_def setIsPlaying_def last_index_def)

lemma narrate_calls:
  "synthCalls (narrate i st) =
     synthCalls st @ (case steps_at st i of None \<Rightarrow> []
                      | Some s \<Rightarrow> [Cancel, Speak (narration_of st s)])"
  by (simp add: narrate_def synth_def speak_def narration_of_def split: option.splits)

lemma steps_at_onStepChange [simp]: "steps_at (onStepChange n st) i = steps_at st i"
  by (simp add: steps_at_def onStepChange_def)

lemma steps_at_handlePause [simp]: "steps_at (handlePause st) i = steps_at st i"
  by (simp add: steps_at_def handlePause_def synth_def setIsPlaying_def)

lemma narration_of_cong [simp]:
  "narration_of (onStepChange n st) s = narration_of st s"
  "narration_of (handlePause st) s = narration_of st s"
  by (simp_all add: narration_of_def onStepChange_def handlePause_def synth_def setIsPlaying_def)

lemma calls_handleNext:
  "synthCalls (handleNext st) = synthCalls st @
     (if currentStep st < last_index st
      then (case steps_at st (currentStep st + 1) of None \<Rightarrow> []
            | Some s \<Rightarrow> [Cancel, Speak (narration_of st s)])
      else [])"
  by (simp add: handleNext_def Let_def narrate_calls onStepChange_def narration_of_def steps_at_def split: option.splits)

lemma calls_handlePrevious:
  "synthCalls (handlePrevious st) = synthCalls st @
     (if 0 < currentStep st
      then (case steps_at st (currentStep st - 1) of None \<Rightarrow> []
            | Some s \<Rightarrow> [Cancel, Speak (narration_of st s)])
      else [])"
  by (simp add: handlePrevious_def Let_def narrate_calls onStepChange_def narration_of_def steps_at_def split: option.splits)

lemma calls_handleReset:
  "synthCalls (handleReset st) = synthCalls st @
     Cancel # (case steps_at st 0 of None \<Rightarrow> []
               | Some s \<Rightarrow> [Cancel, Speak (narration_of st s)])"
  by (simp add: handleReset_def narrate_calls onStepChange_def handlePause_def synth_def
        stopSpeaking_def setIsPlaying_def clear_ref_def clearInterval_def narration_of_def
        steps_at_def split: option.splits)

lemma never_two_active_simps:
  "length q \<le> 1 \<Longrightarrow> never_two_active q []"
  "length q \<le> 1 \<Longrightarrow> never_two_active q [Cancel]"
  "length q \<le> 1 \<Longrightarrow> never_two_active q [Cancel, Speak u]"
  "length q \<le> 1 \<Longrightarrow> never_two_active q [Cancel, Cancel, Speak u]"
  by (auto simp: never_two_active_def run_synth_def)

lemma exclusive_calls:
  assumes "length q \<le> 1" and "cs = [] \<or> cs = [Cancel] \<or> cs = [Cancel, Speak v] \<or> cs = [Cancel, Cancel, Speak v]"
  shows "cancel_before_speak cs \<and> never_two_active q cs
         \<and> (\<forall>u q0. Speak u \<in> set cs \<longrightarrow> run_synth q0 cs = [u])"
  using assms by (auto simp: never_two_active_def run_synth_def)

lemma calls_shape:
  assumes "h = handleNext \<or> h = handlePrevious \<or> h = handleReset"
  shows "synthCalls (h st) = synthCalls st @ calls_of h st
         \<and> (case steps_at st (currentStep (h st)) of
               None \<Rightarrow> calls_of h st = [] \<or> calls_of h st = [Cancel]
             | Some s \<Rightarrow>
                 (currentStep (h st) = currentStep st \<and> calls_of h st = [])
                 \<or> calls_of h st = [Cancel, Speak (narration_of st s)]
                 \<or> calls_of h st = [Cancel, Cancel, Speak (narration_of st s)])"
proof -
  consider (n) "h = handleNext" | (p) "h = handlePrevious" | (r) "h = handleReset"
    using assms by blast
  then show ?thesis
  proof cases
    case n
    have "currentStep (handleNext st) =
            (if currentStep st < last_index st then currentStep st + 1 else currentStep st)"
      by (simp add: handleNext_def onStepChange_def narrate_def synth_def Let_def
            split: option.splits)
    then show ?thesis
      by (cases "currentStep st < last_index st")
         (simp_all add: n calls_of_def calls_handleNext split: option.splits)
  next
    case p
    have "currentStep (handlePrevious st) =
            (if 0 < currentStep st then currentStep st - 1 else currentStep st)"
      by (simp add: handlePrevious_def onStepChange_def narrate_def synth_def Let_def
            split: option.splits)
    then show ?thesis
      by (cases "0 < currentStep st")
         (simp_all add: p calls_of_def calls_handlePrevious split: option.splits)
  next
    case r
    have "currentStep (handleReset st) = 0"
      by (simp add: handleReset_def onStepChange_def narrate_def synth_def split: option.splits)
    then show ?thesis
      by (simp add: r calls_of_def calls_handleReset split: option.splits)
  qed
qed

text \<open>
  C8. Each of \<^verbatim>\<open>next\<close>, \<^verbatim>\<open>previous\<close> and \<^verbatim>\<open>reset\<close> only appends calls to the speech
  service, and in what it appends every \<^verbatim>\<open>speak\<close> comes directly after a \<^verbatim>\<open>cancel\<close>.
  If at most one utterance was queued before, at most one is queued after every single
  call; if the handler speaks at all, the queue ends holding exactly the new utterance,
  whatever it held before; and a handler that moves to an existing step does speak that
  step's description.
\<close>

theorem narration_cancels_before_it_speaks:
  assumes h: "h = handleNext \<or> h = handlePrevious \<or> h = handleReset"
    and q: "length q \<le> 1"
  shows "synthCalls (h st) = synthCalls st @ calls_of h st
         \<and> cancel_before_speak (calls_of h st)
         \<and> never_two_active q (calls_of h st)
         \<and> (\<forall>u q0. Speak u \<in> set (calls_of h st) \<longrightarrow> run_synth q0 (calls_of h st) = [u])
         \<and> (\<forall>s. currentStep (h st) \<noteq> currentStep st
                  \<and> steps_at st (currentStep (h st)) = Some s
                \<longrightarrow> Speak (narration_of st s) \<in> set (calls_of h st))"
proof -
  note sh = calls_shape [OF h, of st]
  have shape: "\<exists>v. calls_of h st = [] \<or> calls_of h st = [Cancel]
                 \<or> calls_of h st = [Cancel, Speak v] \<or> calls_of h st = [Cancel, Cancel, Speak v]"
    using sh by (auto split: option.splits)
  then obtain v where "calls_of h st = [] \<or> calls_of h st = [Cancel]
                 \<or> calls_of h st = [Cancel, Speak v] \<or> calls_of h st = [Cancel, Cancel, Speak v]"
    by blast
  from exclusive_calls [OF q this]
  have ex: "cancel_before_speak (calls_of h st)" "never_two_active q (calls_of h st)"
     "\<forall>u q0. Speak u \<in> set (calls_of h st) \<longrightarrow> run_synth q0 (calls_of h st) = [u]"
    by blast+
  have sp: "\<forall>s. currentStep (h st) \<noteq> currentStep st
                  \<and> steps_at st (currentStep (h st)) = Some s
                \<longrightarrow> Speak (narration_of st s) \<in> set (calls_of h st)"
    using sh by auto
  show ?thesis using sh ex sp by blast
qed

text \<open>
  The hypotheses of C8 at \<^verbatim>\<open>next\<close>, from step 0 of two, while the narration of step 0
  is still queued.
\<close>

theorem narration_cancels_before_it_speaks_witness:
  "(handleNext = handleNext \<or> handleNext = handlePrevious \<or> handleNext = handleReset)
   \<and> length [narration_of (playing_at [step_of ''a'', step_of ''b''] 0) (step_of ''a'')] \<le> 1
   \<and> currentStep (handleNext (playing_at [step_of ''a'', step_of ''b''] 0))
       \<noteq> currentStep (playing_at [step_of ''a'', step_of ''b''] 0)
   \<and> steps_at (playing_at [step_of ''a'', step_of ''b''] 0)
        (currentStep (handleNext (playing_at [step_of ''a'', step_of ''b''] 0)))
       = Some (step_of ''b'')
   \<and> Speak (narration_of (playing_at [step_of ''a'', step_of ''b''] 0) (step_of ''b''))
       \<in> set (calls_of handleNext (playing_at [step_of ''a'', step_of ''b''] 0))
   \<and> run_synth [narration_of (playing_at [step_of ''a'', step_of ''b''] 0) (step_of ''a'')]
        (calls_of handleNext (playing_at [step_of ''a'', step_of ''b''] 0))
       = [narration_of (playing_at [step_of ''a'', step_of ''b''] 0) (step_of ''b'')]
   \<and> never_two_active
        [narration_of (playing_at [step_of ''a'', step_of ''b''] 0) (step_of ''a'')]
        (calls_of handleNext (playing_at [step_of ''a'', step_of ''b''] 0))"
proof -
  have c: "currentStep (handleNext (playing_at [step_of ''a'', step_of ''b''] 0)) = 1"
    by (simp add: handleNext_def playing_at_def last_index_def onStepChange_def narrate_def
          steps_at_def synth_def Let_def)
  have s: "steps_at (playing_at [step_of ''a'', step_of ''b''] 0) 1 = Some (step_of ''b'')"
    by (simp add: steps_at_def playing_at_def)
  show ?thesis
    using narration_cancels_before_it_speaks
            [of handleNext
                "[narration_of (playing_at [step_of ''a'', step_of ''b''] 0) (step_of ''a'')]"
                "playing_at [step_of ''a'', step_of ''b''] 0"]
    by (simp add: c s) (simp add: playing_at_def)
qed

section \<open>Properties of values and selections\<close>

lemma strict_eq_JStr [simp]: "strict_eq v (JStr s) = (v = JStr s)"
  by (cases v) auto

lemma get_attr_set_attr [simp]:
  "get_attr (set_attr k v e) k' = (if k' = k then Some v else get_attr e k')"
  by (simp add: get_attr_def set_attr_def update_conv')

lemma get_attr_new_elem [simp]: "get_attr (new_elem t) k = None"
  by (simp add: get_attr_def new_elem_def)

lemma get_attr_content [simp]: "get_attr (e\<lparr>content := c\<rparr>) k = get_attr e k"
  by (simp add: get_attr_def)

lemma length_enter_append [simp]: "length (enter_append t ds) = length ds"
  by (simp add: enter_append_def)

lemma nth_enter_append [simp]:
  "i < length ds \<Longrightarrow> enter_append t ds ! i = (ds ! i, new_elem t)"
  by (simp add: enter_append_def)

lemma length_append_sel [simp]: "length (append_sel t sel) = length sel"
  by (simp add: append_sel_def)

lemma nth_append_sel [simp]:
  "i < length sel \<Longrightarrow> append_sel t sel ! i = (fst (sel ! i), new_elem t)"
  by (simp add: append_sel_def split_beta)

lemma length_attr_fn [simp]: "length (attr_fn k f sel) = length sel"
  by (simp add: attr_fn_def)

lemma nth_attr_fn [simp]:
  "i < length sel \<Longrightarrow>
   attr_fn k f sel ! i = (fst (sel ! i), set_attr k (f (fst (sel ! i)) i) (snd (sel ! i)))"
  by (simp add: attr_fn_def nth_enumerate_eq split_beta)

lemma length_attr_const [simp]: "length (attr_const k v sel) = length sel"
  by (simp add: attr_const_def)

lemma nth_attr_const [simp]:
  "i < length sel \<Longrightarrow> attr_const k v sel ! i = (fst (sel ! i), set_attr k v (snd (sel ! i)))"
  by (simp add: attr_const_def split_beta)

lemma length_text_fn [simp]: "length (text_fn f sel) = length sel"
  by (simp add: text_fn_def)

lemma nth_text_fn [simp]:
  "i < length sel \<Longrightarrow>
   text_fn f sel ! i = (fst (sel ! i), (snd (sel ! i))\<lparr>content := f (fst (sel ! i)) i\<rparr>)"
  by (simp add: text_fn_def nth_enumerate_eq split_beta)

lemma filter_all: "(\<And>e. e \<in> set xs \<Longrightarrow> P e) \<Longrightarrow> filter P xs = xs"
  by (induction xs) auto

lemma filter_none: "(\<And>e. e \<in> set xs \<Longrightarrow> \<not> P e) \<Longrightarrow> filter P xs = []"
  by (induction xs) auto

section \<open>Properties of the array renderer\<close>

lemma length_array_elements [simp]: "length (array_elements xs) = length xs"
  by (simp add: array_elements_def)

lemma length_array_bars [simp]: "length (array_bars xs s) = length xs"
  by (simp add: array_bars_def chain_def)

lemma array_bars_attr:
  assumes "i < length xs"
  shows "get_attr (array_bars xs s ! i) ''class'' = Some ''bar''"
    and "get_attr (array_bars xs s ! i) ''fill'' = Some (bar_fill s i)"
    and "get_attr (array_bars xs s ! i) ''stroke'' = Some (bar_stroke s i)"
    and "get_attr (array_bars xs s ! i) ''stroke-width'' = Some (bar_stroke_width s i)"
  using assms by (simp_all add: array_bars_def chain_def)

lemma array_bars_class: "e \<in> set (array_bars xs s) \<Longrightarrow> has_class ''bar'' e"
  by (auto simp: in_set_conv_nth has_class_def array_bars_attr)

lemma array_value_labels_class: "e \<in> set (array_value_labels xs) \<Longrightarrow> \<not> has_class ''bar'' e"
  by (auto simp: in_set_conv_nth has_class_def array_value_labels_def chain_def)

lemma array_index_labels_class: "e \<in> set (array_index_labels xs) \<Longrightarrow> \<not> has_class ''bar'' e"
  by (auto simp: in_set_conv_nth has_class_def array_index_labels_def chain_def)

lemma array_axes_class: "e \<in> set array_axes \<Longrightarrow> \<not> has_class ''bar'' e"
  by (auto simp: has_class_def array_axes_def chain_def g_group_def append_sel_def
        attr_const_def)

lemma array_scene_bars:
  "filter (has_class ''bar'')
     (array_bars xs s @ array_value_labels xs @ array_index_labels xs @ array_axes)
   = array_bars xs s"
  by (simp add: filter_all [of "array_bars xs s", OF array_bars_class]
        filter_none [of "array_value_labels xs", OF array_value_labels_class]
        filter_none [of "array_index_labels xs", OF array_index_labels_class]
        filter_none [of array_axes, OF array_axes_class])

text \<open>
  C1. Rendering an array of length \<^verbatim>\<open>n\<close> at step \<^verbatim>\<open>s\<close> succeeds and draws exactly
  \<^verbatim>\<open>n\<close> bars. Bar \<^verbatim>\<open>i\<close> has the current colour exactly when \<^verbatim>\<open>i = s\<close>, the checked
  colour exactly when \<^verbatim>\<open>i < s\<close> and the unchecked colour exactly when \<^verbatim>\<open>i > s\<close>; its
  border is 4 wide exactly when \<^verbatim>\<open>i = s\<close> and 2 wide otherwise. This holds for every
  step, in particular for \<^verbatim>\<open>0 \<le> s < n\<close>.
\<close>

theorem array_render_bars_and_colours:
  "\<exists>scene. renderArrayVisualization (JArr xs) s = Inr scene
     \<and> length (filter (has_class ''bar'') scene) = length xs
     \<and> (\<forall>i < length xs.
           (get_attr (filter (has_class ''bar'') scene ! i) ''fill''
              = Some ''var(--current-color)'' \<longleftrightarrow> int i = s)
         \<and> (get_attr (filter (has_class ''bar'') scene ! i) ''fill''
              = Some ''var(--checked-color)'' \<longleftrightarrow> int i < s)
         \<and> (get_attr (filter (has_class ''bar'') scene ! i) ''fill''
              = Some ''var(--unchecked-color)'' \<longleftrightarrow> s < int i)
         \<and> (get_attr (filter (has_class ''bar'') scene ! i) ''stroke-width''
              = Some ''4'' \<longleftrightarrow> int i = s)
         \<and> (get_attr (filter (has_class ''bar'') scene ! i) ''stroke-width''
              = Some ''2'' \<longleftrightarrow> int i \<noteq> s))"
proof -
  let ?scene = "array_bars xs s @ array_value_labels xs @ array_index_labels xs @ array_axes"
  have r: "renderArrayVisualization (JArr xs) s = Inr ?scene"
    by (simp add: renderArrayVisualization_def)
  have f: "filter (has_class ''bar'') ?scene = array_bars xs s"
    by (rule array_scene_bars)
  have c: "\<forall>i < length xs.
           (get_attr (array_bars xs s ! i) ''fill'' = Some ''var(--current-color)'' \<longleftrightarrow> int i = s)
         \<and> (get_attr (array_bars xs s ! i) ''fill'' = Some ''var(--checked-color)'' \<longleftrightarrow> int i < s)
         \<and> (get_attr (array_bars xs s ! i) ''fill'' = Some ''var(--unchecked-color)'' \<longleftrightarrow> s < int i)
         \<and> (get_attr (array_bars xs s ! i) ''stroke-width'' = Some ''4'' \<longleftrightarrow> int i = s)
         \<and> (get_attr (array_bars xs s ! i) ''stroke-width'' = Some ''2'' \<longleftrightarrow> int i \<noteq> s)"
    by (auto simp: array_bars_attr bar_fill_def bar_stroke_width_def)
  show ?thesis
    using r f c by (intro exI [of _ ?scene]) simp
qed

text \<open>C1 at the array 4, 2, 3, 2, 1 and step 2, read at bars 1, 2 and 3.\<close>

theorem array_render_bars_and_colours_witness:
  "\<exists>scene. renderArrayVisualization (JArr [JNum 4, JNum 2, JNum 3, JNum 2, JNum 1]) 2 = Inr scene
     \<and> length (filter (has_class ''bar'') scene) = 5
     \<and> (1::nat) < length [JNum 4, JNum 2, JNum 3, JNum 2, JNum 1]
     \<and> get_attr (filter (has_class ''bar'') scene ! 1) ''fill'' = Some ''var(--checked-color)''
     \<and> get_attr (filter (has_class ''bar'') scene ! 2) ''fill'' = Some ''var(--current-color)''
     \<and> get_attr (filter (has_class ''bar'') scene ! 2) ''stroke-width'' = Some ''4''
     \<and> get_attr (filter (has_class ''bar'') scene ! 3) ''fill'' = Some ''var(--unchecked-color)''
     \<and> get_attr (filter (has_class ''bar'') scene ! 3) ''stroke-width'' = Some ''2''"
proof -
  from array_render_bars_and_colours [of "[JNum 4, JNum 2, JNum 3, JNum 2, JNum 1]" 2]
  obtain scene where
    r: "renderArrayVisualization (JArr [JNum 4, JNum 2, JNum 3, JNum 2, JNum 1]) 2 = Inr scene"
    and l: "length (filter (has_class ''bar'') scene) = length [JNum 4, JNum 2, JNum 3, JNum 2, JNum 1]"
    and c: "\<forall>i < length [JNum 4, JNum 2, JNum 3, JNum 2, JNum 1].
           (get_attr (filter (has_class ''bar'') scene ! i) ''fill''
              = Some ''var(--current-color)'' \<longleftrightarrow> int i = 2)
         \<and> (get_attr (filter (has_class ''bar'') scene ! i) ''fill''
              = Some ''var(--checked-color)'' \<longleftrightarrow> int i < 2)
         \<and> (get_attr (filter (has_class ''bar'') scene ! i) ''fill''
              = Some ''var(--unchecked-color)'' \<longleftrightarrow> 2 < int i)
         \<and> (get_attr (filter (has_class ''bar'') scene ! i) ''stroke-width''
              = Some ''4'' \<longleftrightarrow> int i = 2)
         \<and> (get_attr (filter (has_class ''bar'') scene ! i) ''stroke-width''
              = Some ''2'' \<longleftrightarrow> int i \<noteq> 2)"
    by blast
  from c [rule_format, of 1] c [rule_format, of 2] c [rule_format, of 3] r l
  show ?thesis by (intro exI [of _ scene]) simp
qed

section \<open>Properties of the linked-list renderer\<close>

lemma some_tail_to_head_iff:
  assumes "\<forall>c \<in> set cs. c \<noteq> JUndefined \<and> c \<noteq> JNull"
  shows "some_tail_to_head cs tail head =
           Inr (\<exists>c \<in> set cs. strict_eq (get_field c ''from'') tail
                              \<and> strict_eq (get_field c ''to'') head)"
  using assms
proof (induction cs)
  case Nil
  then show ?case by simp
next
  case (Cons c cs)
  then have "c \<noteq> JUndefined" "c \<noteq> JNull" by simp_all
  then have "get_prop c ''from'' = Inr (get_field c ''from'')"
    by (cases c) simp_all
  with Cons show ?case by auto
qed

lemma find_end_ok:
  "c \<noteq> JUndefined \<Longrightarrow> c \<noteq> JNull \<Longrightarrow> \<exists>r. find_end ns c k = Inr r"
  by (cases c) (simp_all add: find_end_def)

lemma ll_arrows_ok:
  assumes "\<forall>c \<in> set cs. c \<noteq> JUndefined \<and> c \<noteq> JNull"
  shows "\<exists>arrows. ll_arrows ns cs = Inr arrows
                  \<and> (\<forall>e \<in> set arrows. \<not> has_class ''circular-indicator'' e)"
  using assms
proof (induction cs)
  case Nil
  then show ?case by simp
next
  case (Cons c cs)
  then have "c \<noteq> JUndefined" "c \<noteq> JNull" by simp_all
  then obtain f t where f: "find_end ns c ''from'' = Inr f" and t: "find_end ns c ''to'' = Inr t"
    using find_end_ok by blast
  from Cons obtain rest where r: "ll_arrows ns cs = Inr rest"
    and n: "\<forall>e \<in> set rest. \<not> has_class ''circular-indicator'' e" by auto
  show ?case
    using n by (auto simp: f t r Let_def has_class_def chain_def g_group_def append_sel_def
                       attr_const_def marker_def)
qed

lemma no_indicator_node_groups:
  "\<not> (\<exists>x \<in> set (nodeGroups ns). has_class ''circular-indicator'' (snd x))"
  by (auto simp: in_set_conv_nth has_class_def nodeGroups_def)

lemma no_indicator_node_boxes:
  "\<not> (\<exists>e \<in> set (ll_node_boxes ns s). has_class ''circular-indicator'' e)"
  by (auto simp: in_set_conv_nth has_class_def ll_node_boxes_def nodeGroups_def chain_def)

lemma no_indicator_node_parts:
  "\<not> (\<exists>e \<in> set (ll_node_parts ns). has_class ''circular-indicator'' e)"
  by (auto simp: in_set_conv_nth has_class_def ll_node_parts_def nodeGroups_def chain_def)

lemma no_indicator_head:
  "\<not> (\<exists>e \<in> set (ll_head ns h). has_class ''circular-indicator'' e)"
  by (auto simp: has_class_def ll_head_def chain_def g_group_def append_sel_def
        attr_const_def text_fn_def marker_def split: if_splits)

lemma no_indicator_tail:
  "\<not> (\<exists>e \<in> set (ll_tail ns t). has_class ''circular-indicator'' e)"
  by (auto simp: has_class_def ll_tail_def chain_def g_group_def append_sel_def
        attr_const_def text_fn_def split: if_splits)

lemma no_indicator_strip:
  "\<not> (\<exists>e \<in> set (array_strip ns s). has_class ''circular-indicator'' e)"
  by (auto simp: has_class_def array_strip_def array_strip_cell_def chain_def g_group_def
        append_sel_def attr_const_def attr_fn_def text_fn_def)

lemma no_indicator_lines:
  "\<not> (\<exists>e \<in> set (connection_lines ns). has_class ''circular-indicator'' e)"
  by (auto simp: has_class_def connection_lines_def chain_def g_group_def
        append_sel_def attr_const_def split: if_splits)

lemma no_indicator_step_info:
  "\<not> (\<exists>e \<in> set (step_info d n s). has_class ''circular-indicator'' e)"
  by (auto simp: has_class_def step_info_def chain_def g_group_def
        append_sel_def attr_const_def text_fn_def)

lemma no_indicator_title:
  "\<not> (\<exists>e \<in> set (chain (append_sel ''text'' g_group)
               [attr_const ''class'' ''array-title'', attr_const ''fill'' ''#374151'',
                text_fn (\<lambda>d i. [JStr ''Array Representation''])]). has_class ''circular-indicator'' e)"
  by (auto simp: has_class_def chain_def g_group_def append_sel_def attr_const_def text_fn_def)

lemma indicator_iff:
  "(\<exists>e \<in> set (circular_indicator b). has_class ''circular-indicator'' e) = b"
  by (auto simp: has_class_def circular_indicator_def chain_def g_group_def
        append_sel_def attr_const_def text_fn_def)

lemmas no_indicator =
  no_indicator_node_groups no_indicator_node_boxes no_indicator_node_parts
  no_indicator_head no_indicator_tail no_indicator_strip no_indicator_lines
  no_indicator_step_info no_indicator_title

lemma render_list_indicator:
  assumes n: "get_field listData ''nodes'' = JArr ns"
    and c: "or_empty (get_field listData ''connections'') = JArr cs"
    and w: "\<forall>c \<in> set cs. c \<noteq> JUndefined \<and> c \<noteq> JNull"
  shows "\<exists>scene. renderLinkedListVisualization listData s = Inr scene
           \<and> ((\<exists>e \<in> set scene. has_class ''circular-indicator'' e) \<longleftrightarrow>
                (\<exists>c \<in> set cs.
                    strict_eq (get_field c ''from'') (get_field listData ''tail'')
                    \<and> strict_eq (get_field c ''to'') (get_field listData ''head'')))"
proof -
  have t: "truthy listData" using n by (cases listData) simp_all
  from ll_arrows_ok [OF w, of ns] obtain arrows where a: "ll_arrows ns cs = Inr arrows"
    and na: "\<forall>e \<in> set arrows. \<not> has_class ''circular-indicator'' e" by blast
  let ?b = "\<exists>c \<in> set cs.
                    strict_eq (get_field c ''from'') (get_field listData ''tail'')
                    \<and> strict_eq (get_field c ''to'') (get_field listData ''head'')"
  have i: "isCircular (JArr cs) (get_field listData ''tail'') (get_field listData ''head'') = Inr ?b"
    by (simp add: isCircular_def some_tail_to_head_iff [OF w])
  show ?thesis
    using na indicator_iff [of ?b]
    by (simp add: renderLinkedListVisualization_def t n c i a Let_def bex_Un no_indicator)
qed

text \<open>
  C6. For a linked-list payload (\<^verbatim>\<open>nodes\<close> an array, \<^verbatim>\<open>connections\<close> absent or an array
  of objects) the circular flag is true exactly when some connection has \<^verbatim>\<open>from\<close> equal
  to the payload's \<^verbatim>\<open>tail\<close> and \<^verbatim>\<open>to\<close> equal to its \<^verbatim>\<open>head\<close>; rendering succeeds and
  the scene holds the circularity indicator exactly when the flag is true. The three-node
  list with the connection from \<^verbatim>\<open>n3\<close> back to \<^verbatim>\<open>n1\<close> is flagged, the same list without
  it is not.
\<close>

theorem circular_flag_iff_tail_to_head_connection:
  assumes n: "get_field listData ''nodes'' = JArr ns"
    and c: "or_empty (get_field listData ''connections'') = JArr cs"
    and w: "\<forall>c \<in> set cs. c \<noteq> JUndefined \<and> c \<noteq> JNull"
  shows "circular_flag listData =
           Inr (\<exists>c \<in> set cs.
                  strict_eq (get_field c ''from'') (get_field listData ''tail'')
                  \<and> strict_eq (get_field c ''to'') (get_field listData ''head''))
         \<and> (\<exists>scene. renderLinkedListVisualization listData s = Inr scene
               \<and> ((\<exists>e \<in> set scene. has_class ''circular-indicator'' e)
                    \<longleftrightarrow> circular_flag listData = Inr True))
         \<and> circular_flag (example_list True) = Inr True
         \<and> circular_flag (example_list False) = Inr False"
proof -
  have f: "circular_flag listData =
           Inr (\<exists>c \<in> set cs.
                  strict_eq (get_field c ''from'') (get_field listData ''tail'')
                  \<and> strict_eq (get_field c ''to'') (get_field listData ''head''))"
    by (simp add: circular_flag_def c isCircular_def some_tail_to_head_iff [OF w])
  have t: "circular_flag (example_list True) = Inr True" by code_simp
  have u: "circular_flag (example_list False) = Inr False" by code_simp
  from render_list_indicator [OF n c w, of s] f t u show ?thesis by simp
qed

text \<open>The hypotheses of C6 at the three-node circular list, at step 0.\<close>

theorem circular_flag_iff_tail_to_head_connection_witness:
  "get_field (example_list True) ''nodes''
     = JArr [list_node 1 ''n1'', list_node 2 ''n2'', list_node 3 ''n3'']
   \<and> or_empty (get_field (example_list True) ''connections'')
     = JArr [list_conn ''n1'' ''n2'', list_conn ''n2'' ''n3'', list_conn ''n3'' ''n1'']
   \<and> JUndefined \<notin> set [list_conn ''n1'' ''n2'', list_conn ''n2'' ''n3'', list_conn ''n3'' ''n1'']
   \<and> JNull \<notin> set [list_conn ''n1'' ''n2'', list_conn ''n2'' ''n3'', list_conn ''n3'' ''n1'']
   \<and> (\<exists>scene. renderLinkedListVisualization (example_list True) 0 = Inr scene
         \<and> (\<exists>e \<in> set scene. has_class ''circular-indicator'' e))"
proof -
  have n: "get_field (example_list True) ''nodes''
     = JArr [list_node 1 ''n1'', list_node 2 ''n2'', list_node 3 ''n3'']"
    by (simp add: example_list_def)
  have c: "or_empty (get_field (example_list True) ''connections'')
     = JArr [list_conn ''n1'' ''n2'', list_conn ''n2'' ''n3'', list_conn ''n3'' ''n1'']"
    by (simp add: example_list_def or_empty_def)
  have w: "\<forall>c \<in> set [list_conn ''n1'' ''n2'', list_conn ''n2'' ''n3'', list_conn ''n3'' ''n1''].
         c \<noteq> JUndefined \<and> c \<noteq> JNull"
    by (simp add: list_conn_def)
  from circular_flag_iff_tail_to_head_connection [OF n c w, of 0] n c w
  show ?thesis by (auto simp: list_conn_def)
qed

subsection \<open>The array strip\<close>

text \<open>
  A node box is filled by comparing the node's index with the step. Every box of the array
  strip is filled as index 0 would be, whichever node it stands for.
\<close>

lemma array_strip_box_fill:
  "e \<in> set (array_strip ns s) \<Longrightarrow> has_class ''array-box'' e \<Longrightarrow>
   get_attr e ''fill'' = Some (ll_fill s 0)"
  by (auto simp: array_strip_def array_strip_cell_def chain_def g_group_def append_sel_def
        attr_const_def attr_fn_def text_fn_def has_class_def)

lemma node_box_fill:
  "i < length ns \<Longrightarrow> get_attr (ll_node_boxes ns s ! i) ''fill'' = Some (ll_fill s i)"
  by (simp add: ll_node_boxes_def nodeGroups_def chain_def)

text \<open>
  C7 says that cell \<^verbatim>\<open>i\<close> of the array strip is coloured by the rule of the node boxes:
  current if \<^verbatim>\<open>i = s\<close>, processed if \<^verbatim>\<open>i < s\<close>, pending if \<^verbatim>\<open>i > s\<close>. The code does not
  do that. At step 1 of the three-node list the node boxes are coloured by index
  (processed, current, pending), but all three cells of the strip get the processed
  colour: the styling callback of a cell is called with the index 0 that the cell has in
  its own one-element selection, not with the index of the node.
\<close>

theorem array_strip_colours_all_cells_alike:
  "case renderLinkedListVisualization (example_list False) 1 of
     Inl e \<Rightarrow> False
   | Inr scene \<Rightarrow>
       fills_of ''node-box'' scene = [Some ''#10b981'', Some ''#f59e0b'', Some ''#3b82f6'']
       \<and> fills_of ''array-box'' scene = [Some ''#10b981'', Some ''#10b981'', Some ''#10b981'']"
  by code_simp

text \<open>At that input the render succeeds and the strip's colours differ from the nodes'.\<close>

theorem array_strip_colours_all_cells_alike_witness:
  "\<exists>scene. renderLinkedListVisualization (example_list False) 1 = Inr scene
     \<and> fills_of ''array-box'' scene \<noteq> fills_of ''node-box'' scene"
  using array_strip_colours_all_cells_alike by (auto split: sum.splits)

section \<open>Properties of the component\<close>

lemma heading_string:
  "get_prop payload ''type'' = Inr (JStr t) \<Longrightarrow>
   heading payload = Inr ((case t of [] \<Rightarrow> [] | c # cs \<Rightarrow> toUpperCase c # cs) @ '' Visualization'')"
  by (simp add: heading_def)

lemma heading_no_string:
  "get_prop payload ''type'' = Inr ty \<Longrightarrow> \<forall>t. ty \<noteq> JStr t \<Longrightarrow> heading payload = Inl TypeError"
  by (cases ty) (simp_all add: heading_def)

text \<open>
  C3 says that a payload whose tag is unset or unrecognized is classified by its shape and
  rendered as a linked list or as an array, in particular the two payloads of the spec
  whose tag is undefined. For a tag that is a string outside the four known ones the code
  does so: the drawing effect goes by shape, and the component gets as far as the effect,
  its heading being the tag with a capital. For a tag that is not a string, undefined
  included, the effect would classify in the same way, but the component throws a
  \<^verbatim>\<open>TypeError\<close> in its heading before the effect runs, so nothing is classified or
  rendered. The spec's two payloads, with the tag undefined or absent, end in that error.
\<close>

theorem unset_tag_throws_before_the_fallback:
  assumes ty: "get_prop payload ''type'' = Inr ty"
    and unknown: "ty \<notin> {JStr ''array'', JStr ''graph'', JStr ''tree'', JStr ''linkedlist''}"
  shows "(get_field payload ''data'' = JObj kvs \<and> ''nodes'' \<in> set (map fst kvs) \<longrightarrow>
           classify payload = Inr (Some LinkedListKind)
           \<and> draw payload s = renderLinkedListVisualization (JObj kvs) s)
         \<and> (get_field payload ''data'' = JArr xs \<longrightarrow>
              classify payload = Inr (Some ArrayKind)
              \<and> draw payload s = renderArrayVisualization (JArr xs) s)
         \<and> (\<forall>t. ty = JStr t \<longrightarrow>
              AlgorithmVisualizer payload s =
                (case footer payload s of
                   Inl e \<Rightarrow> Inl e
                 | Inr f \<Rightarrow>
                     (case draw payload s of
                        Inl e \<Rightarrow> Inl e
                      | Inr scene \<Rightarrow>
                          Inr ((case t of [] \<Rightarrow> [] | c # cs \<Rightarrow> toUpperCase c # cs)
                                 @ '' Visualization'', f, scene))))
         \<and> ((\<forall>t. ty \<noteq> JStr t) \<longrightarrow> AlgorithmVisualizer payload s = Inl TypeError)
         \<and> classify (JObj [(''type'', JUndefined), (''data'', example_list True)])
             = Inr (Some LinkedListKind)
         \<and> AlgorithmVisualizer (JObj [(''type'', JUndefined), (''data'', example_list True)]) 0
             = Inl TypeError
         \<and> classify (untagged (example_list True)) = Inr (Some LinkedListKind)
         \<and> AlgorithmVisualizer (untagged (example_list True)) 0 = Inl TypeError
         \<and> classify (JObj [(''type'', JUndefined), (''data'', example_array)])
             = Inr (Some ArrayKind)
         \<and> AlgorithmVisualizer (JObj [(''type'', JUndefined), (''data'', example_array)]) 0
             = Inl TypeError
         \<and> classify (untagged example_array) = Inr (Some ArrayKind)
         \<and> AlgorithmVisualizer (untagged example_array) 0 = Inl TypeError"
proof (intro conjI impI allI)
  assume a: "get_field payload ''data'' = JObj kvs \<and> ''nodes'' \<in> set (map fst kvs)"
  then show c: "classify payload = Inr (Some LinkedListKind)"
    using ty unknown by (simp add: classify_def)
  show "draw payload s = renderLinkedListVisualization (JObj kvs) s"
    using a by (simp add: draw_def c)
next
  assume a: "get_field payload ''data'' = JArr xs"
  then show c: "classify payload = Inr (Some ArrayKind)"
    using ty unknown by (simp add: classify_def)
  show "draw payload s = renderArrayVisualization (JArr xs) s"
    using a by (simp add: draw_def c)
next
  fix t assume "ty = JStr t"
  with ty have "get_prop payload ''type'' = Inr (JStr t)" by simp
  from heading_string [OF this]
  show "AlgorithmVisualizer payload s =
                (case footer payload s of
                   Inl e \<Rightarrow> Inl e
                 | Inr f \<Rightarrow>
                     (case draw payload s of
                        Inl e \<Rightarrow> Inl e
                      | Inr scene \<Rightarrow>
                          Inr ((case t of [] \<Rightarrow> [] | c # cs \<Rightarrow> toUpperCase c # cs)
                                 @ '' Visualization'', f, scene)))"
    by (simp add: AlgorithmVisualizer_def)
next
  assume "\<forall>t. ty \<noteq> JStr t"
  from heading_no_string [OF ty this]
  show "AlgorithmVisualizer payload s = Inl TypeError"
    by (simp add: AlgorithmVisualizer_def)
next
  show "classify (JObj [(''type'', JUndefined), (''data'', example_list True)])
             = Inr (Some LinkedListKind)"
    by (simp add: classify_def example_list_def)
  show "classify (untagged (example_list True)) = Inr (Some LinkedListKind)"
    by (simp add: classify_def example_list_def untagged_def)
  show "classify (JObj [(''type'', JUndefined), (''data'', example_array)])
             = Inr (Some ArrayKind)"
    by (simp add: classify_def example_array_def)
  show "classify (untagged example_array) = Inr (Some ArrayKind)"
    by (simp add: classify_def example_array_def untagged_def)
  show "AlgorithmVisualizer (JObj [(''type'', JUndefined), (''data'', example_list True)]) 0
             = Inl TypeError"
    by (simp add: AlgorithmVisualizer_def heading_def)
  show "AlgorithmVisualizer (untagged (example_list True)) 0 = Inl TypeError"
    by (simp add: AlgorithmVisualizer_def heading_def untagged_def)
  show "AlgorithmVisualizer (JObj [(''type'', JUndefined), (''data'', example_array)]) 0
             = Inl TypeError"
    by (simp add: AlgorithmVisualizer_def heading_def)
  show "AlgorithmVisualizer (untagged example_array) 0 = Inl TypeError"
    by (simp add: AlgorithmVisualizer_def heading_def untagged_def)
qed

lemma toUpperCase_h: "toUpperCase (CHR ''h'') = CHR ''H''"
  by code_simp

text \<open>
  The hypotheses of C3 at the unknown tag \<^verbatim>\<open>heap\<close> with array data, which renders under
  the heading Heap Visualization, and at the tag \<^verbatim>\<open>null\<close> with list data, which throws.
\<close>

theorem unset_tag_throws_before_the_fallback_witness:
  "get_prop (JObj [(''type'', JStr ''heap''), (''data'', example_array)]) ''type''
     = Inr (JStr ''heap'')
   \<and> JStr ''heap'' \<notin> {JStr ''array'', JStr ''graph'', JStr ''tree'', JStr ''linkedlist''}
   \<and> get_field (JObj [(''type'', JStr ''heap''), (''data'', example_array)]) ''data''
     = JArr [JNum 4, JNum 2, JNum 3, JNum 2, JNum 1]
   \<and> draw (JObj [(''type'', JStr ''heap''), (''data'', example_array)]) 2
     = renderArrayVisualization (JArr [JNum 4, JNum 2, JNum 3, JNum 2, JNum 1]) 2
   \<and> (\<exists>scene. AlgorithmVisualizer (JObj [(''type'', JStr ''heap''), (''data'', example_array)]) 2
                = Inr (''Heap Visualization'', (JNum 5, JNum 3), scene))
   \<and> get_prop (JObj [(''type'', JNull), (''data'', JObj [(''nodes'', JArr [])])]) ''type''
     = Inr JNull
   \<and> JNull \<notin> {JStr ''array'', JStr ''graph'', JStr ''tree'', JStr ''linkedlist''}
   \<and> (\<forall>t. JNull \<noteq> JStr t)
   \<and> get_field (JObj [(''type'', JNull), (''data'', JObj [(''nodes'', JArr [])])]) ''data''
     = JObj [(''nodes'', JArr [])]
   \<and> ''nodes'' \<in> set (map fst [(''nodes'', JArr [])])
   \<and> classify (JObj [(''type'', JNull), (''data'', JObj [(''nodes'', JArr [])])])
     = Inr (Some LinkedListKind)
   \<and> AlgorithmVisualizer (JObj [(''type'', JNull), (''data'', JObj [(''nodes'', JArr [])])]) 0
     = Inl TypeError"
proof -
  let ?a = "JObj [(''type'', JStr ''heap''), (''data'', example_array)]"
  let ?b = "JObj [(''type'', JNull), (''data'', JObj [(''nodes'', JArr [])])]"
  have ta: "get_prop ?a ''type'' = Inr (JStr ''heap'')" by simp
  have ua: "JStr ''heap'' \<notin> {JStr ''array'', JStr ''graph'', JStr ''tree'', JStr ''linkedlist''}"
    by simp
  have da: "get_field ?a ''data'' = JArr [JNum 4, JNum 2, JNum 3, JNum 2, JNum 1]"
    by (simp add: example_array_def)
  have tb: "get_prop ?b ''type'' = Inr JNull" by simp
  have ub: "JNull \<notin> {JStr ''array'', JStr ''graph'', JStr ''tree'', JStr ''linkedlist''}"
    by simp
  have db: "get_field ?b ''data'' = JObj [(''nodes'', JArr [])]" by simp
  have f: "footer ?a 2 = Inr (JNum 5, JNum 3)"
    by (simp add: footer_def example_array_def Let_def)
  have r: "\<exists>scene. renderArrayVisualization (JArr [JNum 4, JNum 2, JNum 3, JNum 2, JNum 1]) 2
                    = Inr scene"
    by (simp add: renderArrayVisualization_def)
  have h: "(case ''heap'' of [] \<Rightarrow> [] | c # cs \<Rightarrow> toUpperCase c # cs) @ '' Visualization''
             = ''Heap Visualization''"
    by (simp add: toUpperCase_h)
  note A = unset_tag_throws_before_the_fallback
             [OF ta ua, where xs = "[JNum 4, JNum 2, JNum 3, JNum 2, JNum 1]" and s = 2]
  note B = unset_tag_throws_before_the_fallback
             [OF tb ub, where kvs = "[(''nodes'', JArr [])]" and s = 0]
  have d: "draw ?a 2 = renderArrayVisualization (JArr [JNum 4, JNum 2, JNum 3, JNum 2, JNum 1]) 2"
    using A [THEN conjunct2, THEN conjunct1, rule_format, OF da] by (rule conjunct2)
  have v: "AlgorithmVisualizer ?a 2 =
             (case footer ?a 2 of Inl e \<Rightarrow> Inl e
              | Inr f \<Rightarrow> (case draw ?a 2 of Inl e \<Rightarrow> Inl e
                          | Inr scene \<Rightarrow> Inr (''Heap Visualization'', f, scene)))"
    using A [THEN conjunct2, THEN conjunct2, THEN conjunct1, rule_format, OF refl]
    unfolding h .
  have e: "\<exists>scene. AlgorithmVisualizer ?a 2 = Inr (''Heap Visualization'', (JNum 5, JNum 3), scene)"
    using r unfolding v f d by auto
  have cb: "classify ?b = Inr (Some LinkedListKind)"
    using B [THEN conjunct1, rule_format, OF conjI [OF db]] by simp
  have vb: "AlgorithmVisualizer ?b 0 = Inl TypeError"
    using B [THEN conjunct2, THEN conjunct2, THEN conjunct2, THEN conjunct1] by simp
  show ?thesis using ta ua da d e tb ub db cb vb by simp
qed

text \<open>
  C4 says that no payload makes the component throw, an absent tag included. The code
  does throw. For the array payload without a \<^verbatim>\<open>type\<close> the drawing effect
  would fall back to the array renderer, but the component throws a \<^verbatim>\<open>TypeError\<close> before
  the effect can run, because its heading calls \<^verbatim>\<open>data.type.charAt\<close>. With an unknown
  tag and \<^verbatim>\<open>data: null\<close> the effect would draw nothing, and the component throws on
  \<^verbatim>\<open>data.data.length\<close>.
\<close>

theorem missing_tag_throws_in_markup:
  "AlgorithmVisualizer (untagged example_array) 0 = Inl TypeError
   \<and> draw (untagged example_array) 0 = renderArrayVisualization example_array 0
   \<and> AlgorithmVisualizer (JObj [(''type'', JStr ''heap''), (''data'', JNull)]) 0 = Inl TypeError
   \<and> draw (JObj [(''type'', JStr ''heap''), (''data'', JNull)]) 0 = Inr []"
  by (simp add: AlgorithmVisualizer_def heading_def footer_def untagged_def draw_def
        classify_def example_array_def)

text \<open>So for that payload the component returns no result at all.\<close>

theorem missing_tag_throws_in_markup_witness:
  "\<forall>r. AlgorithmVisualizer (untagged example_array) 0 \<noteq> Inr r"
  using missing_tag_throws_in_markup by simp

section \<open>Properties of the graph renderer\<close>

lemma includes_name_iff: "includes_name names v = (\<exists>m. v = JStr m \<and> m \<in> set names)"
  by (cases v) auto

lemma set_push_neighbors:
  "set (push_neighbors names n nbs es) =
     set es \<union> {(JStr n, v) | v. v \<in> set nbs \<and> includes_name names v}"
  unfolding push_neighbors_def
  by (induction nbs arbitrary: es) auto

lemma adjacency_edges_ok:
  assumes "\<forall>k \<in> set rest. isArray (or_empty (get_field g k))"
  shows "\<exists>es'. adjacency_edges g names rest es = Inr es'
           \<and> set es' = set es \<union> {(JStr n, v) | n v.
                 n \<in> set rest \<and> v \<in> set (neighbors_of g n) \<and> includes_name names v}"
  using assms
proof (induction rest arbitrary: es)
  case Nil
  then show ?case by simp
next
  case (Cons k rest)
  from Cons.prems obtain nbs where nb: "or_empty (get_field g k) = JArr nbs"
    by (cases "or_empty (get_field g k)") auto
  from Cons.prems have "\<forall>k \<in> set rest. isArray (or_empty (get_field g k))" by simp
  from Cons.IH [OF this, of "push_neighbors names k nbs es"]
  obtain es' where r: "adjacency_edges g names rest (push_neighbors names k nbs es) = Inr es'"
    and s: "set es' = set (push_neighbors names k nbs es) \<union> {(JStr n, v) | n v.
                 n \<in> set rest \<and> v \<in> set (neighbors_of g n) \<and> includes_name names v}"
    by blast
  have nk: "neighbors_of g k = nbs" by (simp add: neighbors_of_def nb)
  have "adjacency_edges g names (k # rest) es = Inr es'" by (simp add: nb r)
  moreover have "set es' = set es \<union> {(JStr n, v) | n v.
                 n \<in> set (k # rest) \<and> v \<in> set (neighbors_of g n) \<and> includes_name names v}"
    unfolding s set_push_neighbors using nk by auto
  ultimately show ?case by blast
qed

lemma force_link_ok:
  assumes "\<forall>(s, t) \<in> set es. link_end ids s = Inr s \<and> link_end ids t = Inr t"
  shows "force_link ids es = Inr es"
  using assms by (induction es) auto

lemma link_end_name: "m \<in> set names \<Longrightarrow> link_end (map JStr names) (JStr m) = Inr (JStr m)"
  by (auto simp: link_end_def)

lemma map_fst_graph_links [simp]: "map fst (graph_links es) = es"
  by (simp add: graph_links_def attr_const_def enter_append_def comp_def split_beta)

text \<open>
  C5. For an adjacency object (every value absent, falsy or an array) the graph renderer
  raises no error, neither in its own loops nor in the link force, and the edges bound to
  the rendered lines are exactly the pairs of a node name and one of its listed
  neighbours that is itself a node name. A neighbour that names no node yields no edge.
\<close>

theorem adjacency_edges_are_the_pairs_among_declared_nodes:
  assumes "\<forall>k \<in> set (map fst kvs). isArray (or_empty (get_field (JObj kvs) k))"
  shows "\<exists>view. renderGraphVisualization (JObj kvs) s = Inr view
           \<and> set (map fst (links view)) =
               {(JStr n, JStr m) | n m.
                  n \<in> set (map fst kvs) \<and> m \<in> set (map fst kvs)
                  \<and> JStr m \<in> set (neighbors_of (JObj kvs) n)}"
proof -
  let ?names = "map fst kvs"
  let ?pairs = "{(JStr n, JStr m) | n m.
                  n \<in> set ?names \<and> m \<in> set ?names \<and> JStr m \<in> set (neighbors_of (JObj kvs) n)}"
  from adjacency_edges_ok [OF assms, of ?names "[]"]
  obtain es where a: "adjacency_edges (JObj kvs) ?names ?names [] = Inr es"
    and s: "set es = {(JStr n, v) | n v.
                 n \<in> set ?names \<and> v \<in> set (neighbors_of (JObj kvs) n) \<and> includes_name ?names v}"
    by auto
  have p: "set es = ?pairs" unfolding s by (auto simp: includes_name_iff)
  have gp: "graph_parse (JObj kvs) = Inr (map JStr ?names, es)"
    by (simp add: graph_parse_def a del: map_map)
  have "\<forall>(s, t) \<in> set es. link_end (map JStr ?names) s = Inr s
                           \<and> link_end (map JStr ?names) t = Inr t"
    unfolding p using link_end_name [of _ ?names] by (auto simp del: set_map map_map)
  then have fl: "force_link (map JStr ?names) es = Inr es" by (rule force_link_ok)
  show ?thesis
  proof (cases "kvs = []")
    case True
    then have "es = []" using a by simp
    then have "set ([] :: edge list) = ?pairs" using p by simp
    moreover have "renderGraphVisualization (JObj kvs) s
                     = Inr \<lparr>sim_nodes = [], links = [], elements = []\<rparr>"
      using True by (simp add: renderGraphVisualization_def graph_parse_def)
    ultimately show ?thesis by simp
  next
    case False
    let ?view = "\<lparr>sim_nodes = seed_nodes (map JStr ?names), links = graph_links es,
                  elements = graph_group ''graph-container-group''
                    @ graph_group ''links''
                    @ map snd (graph_links es)
                    @ graph_group ''nodes''
                    @ graph_circles (seed_nodes (map JStr ?names)) s
                    @ graph_group ''labels''
                    @ graph_labels (seed_nodes (map JStr ?names))
                    @ graph_titles (seed_nodes (map JStr ?names))
                    @ graph_step_info s (length (seed_nodes (map JStr ?names))) (length es)\<rparr>"
    have r: "renderGraphVisualization (JObj kvs) s = Inr ?view"
      using False by (simp add: renderGraphVisualization_def gp fl Let_def del: map_map)
    have "map fst (links ?view) = es" by simp
    then have "set (map fst (links ?view)) = ?pairs" using p by (simp only:)
    with r show ?thesis by blast
  qed
qed

text \<open>
  The hypothesis of C5 at the graph in which \<^verbatim>\<open>A\<close> lists \<^verbatim>\<open>B\<close> and the unknown \<^verbatim>\<open>Z\<close>:
  the edge to \<^verbatim>\<open>B\<close> is rendered, the edge to \<^verbatim>\<open>Z\<close> is not.
\<close>

theorem adjacency_edges_are_the_pairs_among_declared_nodes_witness:
  "isArray (or_empty (get_field example_graph ''A''))
   \<and> isArray (or_empty (get_field example_graph ''B''))
   \<and> (\<exists>view. renderGraphVisualization example_graph 1 = Inr view
         \<and> (JStr ''A'', JStr ''B'') \<in> set (map fst (links view))
         \<and> (JStr ''A'', JStr ''Z'') \<notin> set (map fst (links view)))"
proof -
  let ?kvs = "[(''A'', JArr [JStr ''B'', JStr ''Z'']), (''B'', JArr [JStr ''A''])]"
  have a: "isArray (or_empty (get_field example_graph ''A''))"
    and b: "isArray (or_empty (get_field example_graph ''B''))"
    by (simp_all add: example_graph_def or_empty_def)
  have h: "\<forall>k \<in> set (map fst ?kvs). isArray (or_empty (get_field (JObj ?kvs) k))"
    using a b by (simp add: example_graph_def)
  from adjacency_edges_are_the_pairs_among_declared_nodes [OF h, of 1]
  obtain view where r: "renderGraphVisualization (JObj ?kvs) 1 = Inr view"
    and s: "set (map fst (links view)) =
               {(JStr n, JStr m) | n m.
                  n \<in> set (map fst ?kvs) \<and> m \<in> set (map fst ?kvs)
                  \<and> JStr m \<in> set (neighbors_of (JObj ?kvs) n)}"
    by blast
  have nA: "neighbors_of (JObj ?kvs) ''A'' = [JStr ''B'', JStr ''Z'']"
    by (simp add: neighbors_of_def or_empty_def)
  have i: "(JStr ''A'', JStr ''B'') \<in> set (map fst (links view))"
    unfolding s using nA by force
  have o: "(JStr ''A'', JStr ''Z'') \<notin> set (map fst (links view))"
    unfolding s by simp
  from r i o a b show ?thesis unfolding example_graph_def by blast
qed

subsection \<open>Click on a node\<close>

lemma update_node_fields [simp]:
  "length (nodes (update_node i f sim)) = length (nodes sim)"
  "alphaTarget (update_node i f sim) = alphaTarget sim"
  "restarts (update_node i f sim) = restarts sim"
  by (simp_all add: update_node_def)

lemma update_node_nth:
  "j < length (nodes sim) \<Longrightarrow>
   nodes (update_node i f sim) ! j = (if j = i then f (nodes sim ! j) else nodes sim ! j)"
  by (simp add: update_node_def)

lemma sim_tick_fields [simp]:
  "length (nodes (sim_tick m sim)) = length (nodes sim)"
  "alphaTarget (sim_tick m sim) = alphaTarget sim"
  "restarts (sim_tick m sim) = restarts sim"
  by (simp_all add: sim_tick_def)

lemma sim_tick_nth:
  "j < length (nodes sim) \<Longrightarrow> nodes (sim_tick m sim) ! j = tick_node (m j) (nodes sim ! j)"
  by (simp add: sim_tick_def nth_enumerate_eq)

lemma tick_node_fields [simp]:
  "fx (tick_node p d) = fx d" "fy (tick_node p d) = fy d" "node_id (tick_node p d) = node_id d"
  by (simp_all add: tick_node_def)

lemma tick_node_pinned:
  "fx d = Pinned v \<Longrightarrow> pos_x (tick_node p d) = v"
  "fy d = Pinned w \<Longrightarrow> pos_y (tick_node p d) = w"
  by (simp_all add: tick_node_def)

lemma sim_ticks_fields [simp]:
  "length (nodes (sim_ticks ms sim)) = length (nodes sim)"
  "alphaTarget (sim_ticks ms sim) = alphaTarget sim"
  "restarts (sim_ticks ms sim) = restarts sim"
  unfolding sim_ticks_def by (induction ms arbitrary: sim) simp_all

lemma sim_ticks_keep:
  assumes "j < length (nodes sim)"
  shows "fx (nodes (sim_ticks ms sim) ! j) = fx (nodes sim ! j)
         \<and> fy (nodes (sim_ticks ms sim) ! j) = fy (nodes sim ! j)
         \<and> node_id (nodes (sim_ticks ms sim) ! j) = node_id (nodes sim ! j)"
  using assms unfolding sim_ticks_def
  by (induction ms arbitrary: sim) (simp_all add: sim_tick_nth)

lemma sim_ticks_held:
  assumes "j < length (nodes sim)"
    and "fx (nodes sim ! j) = Pinned v" and "fy (nodes sim ! j) = Pinned w"
    and "pos_x (nodes sim ! j) = v" and "pos_y (nodes sim ! j) = w"
  shows "pos_x (nodes (sim_ticks ms sim) ! j) = v \<and> pos_y (nodes (sim_ticks ms sim) ! j) = w"
  using assms unfolding sim_ticks_def
proof (induction ms arbitrary: sim)
  case Nil
  then show ?case by simp
next
  case (Cons m ms)
  have n: "nodes (sim_tick m sim) ! j = tick_node (m j) (nodes sim ! j)"
    using Cons.prems(1) by (simp add: sim_tick_nth)
  have "pos_x (nodes (foldl (\<lambda>s m. sim_tick m s) (sim_tick m sim) ms) ! j) = v
        \<and> pos_y (nodes (foldl (\<lambda>s m. sim_tick m s) (sim_tick m sim) ms) ! j) = w"
  proof (rule Cons.IH)
    show "j < length (nodes (sim_tick m sim))" using Cons.prems(1) by simp
    show "fx (nodes (sim_tick m sim) ! j) = Pinned v" using Cons.prems(2) by (simp add: n)
    show "fy (nodes (sim_tick m sim) ! j) = Pinned w" using Cons.prems(3) by (simp add: n)
    show "pos_x (nodes (sim_tick m sim) ! j) = v"
      unfolding n by (rule tick_node_pinned(1) [OF Cons.prems(2)])
    show "pos_y (nodes (sim_tick m sim) ! j) = w"
      unfolding n by (rule tick_node_pinned(2) [OF Cons.prems(3)])
  qed
  then show ?case by simp
qed

lemma sim_ticks_pinned:
  assumes "j < length (nodes sim)"
    and "fx (nodes sim ! j) = Pinned (pos_x (nodes sim ! j))"
    and "fy (nodes sim ! j) = Pinned (pos_y (nodes sim ! j))"
  shows "pos_x (nodes (sim_ticks ms sim) ! j) = pos_x (nodes sim ! j)
         \<and> pos_y (nodes (sim_ticks ms sim) ! j) = pos_y (nodes sim ! j)"
  by (rule sim_ticks_held [OF assms refl refl])

lemma mouse_down_facts:
  assumes "i < length (nodes sim)"
  shows "length (nodes (mouse_down held i sim)) = length (nodes sim)"
    and "fx (nodes (mouse_down held i sim) ! i) = Pinned (pos_x (nodes sim ! i))"
    and "fy (nodes (mouse_down held i sim) ! i) = Pinned (pos_y (nodes sim ! i))"
    and "pos_x (nodes (mouse_down held i sim) ! i) = pos_x (nodes sim ! i)"
    and "pos_y (nodes (mouse_down held i sim) ! i) = pos_y (nodes sim ! i)"
    and "alphaTarget (mouse_down held i sim) = 3 / 10"
    and "restarts (mouse_down held i sim) = Suc (restarts sim)"
proof -
  let ?s = "drag_start False i sim"
  have l: "i < length (nodes ?s)" using assms by (simp add: drag_start_def)
  have f: "fx (nodes ?s ! i) = Pinned (pos_x (nodes sim ! i))"
          "fy (nodes ?s ! i) = Pinned (pos_y (nodes sim ! i))"
          "pos_x (nodes ?s ! i) = pos_x (nodes sim ! i)"
          "pos_y (nodes ?s ! i) = pos_y (nodes sim ! i)"
    using assms by (simp_all add: drag_start_def update_node_nth)
  show "length (nodes (mouse_down held i sim)) = length (nodes sim)"
    by (simp add: mouse_down_def drag_start_def)
  show "fx (nodes (mouse_down held i sim) ! i) = Pinned (pos_x (nodes sim ! i))"
       "fy (nodes (mouse_down held i sim) ! i) = Pinned (pos_y (nodes sim ! i))"
    using sim_ticks_keep [OF l, of held] f by (simp_all add: mouse_down_def)
  show "pos_x (nodes (mouse_down held i sim) ! i) = pos_x (nodes sim ! i)"
       "pos_y (nodes (mouse_down held i sim) ! i) = pos_y (nodes sim ! i)"
    using sim_ticks_pinned [OF l, of held] f by (simp_all add: mouse_down_def)
  show "alphaTarget (mouse_down held i sim) = 3 / 10"
       "restarts (mouse_down held i sim) = Suc (restarts sim)"
    by (simp_all add: mouse_down_def drag_start_def)
qed

lemma mouse_up_facts:
  assumes "i < length (nodes sim)"
  shows "length (nodes (mouse_up idle i sim)) = length (nodes sim)"
    and "fx (nodes (mouse_up idle i sim) ! i) = Cleared"
    and "fy (nodes (mouse_up idle i sim) ! i) = Cleared"
    and "alphaTarget (mouse_up idle i sim) = 0"
    and "restarts (mouse_up idle i sim) = restarts sim"
proof -
  let ?s = "drag_end False i sim"
  have l: "i < length (nodes ?s)" using assms by (simp add: drag_end_def)
  have f: "fx (nodes ?s ! i) = Cleared" "fy (nodes ?s ! i) = Cleared"
    using assms by (simp_all add: drag_end_def update_node_nth)
  show "length (nodes (mouse_up idle i sim)) = length (nodes sim)"
    by (simp add: mouse_up_def drag_end_def)
  show "fx (nodes (mouse_up idle i sim) ! i) = Cleared"
       "fy (nodes (mouse_up idle i sim) ! i) = Cleared"
    using sim_ticks_keep [OF l, of idle] f by (simp_all add: mouse_up_def)
  show "alphaTarget (mouse_up idle i sim) = 0" "restarts (mouse_up idle i sim) = restarts sim"
    by (simp_all add: mouse_up_def drag_end_def)
qed

lemma pulse_facts:
  assumes "i < length (nodes sim)"
  shows "length (nodes (pulse pulsing i sim)) = length (nodes sim)"
    and "fx (nodes (pulse pulsing i sim) ! i) = Pinned (pos_x (nodes sim ! i))"
    and "fy (nodes (pulse pulsing i sim) ! i) = Pinned (pos_y (nodes sim ! i))"
    and "pos_x (nodes (pulse pulsing i sim) ! i) = pos_x (nodes sim ! i)"
    and "pos_y (nodes (pulse pulsing i sim) ! i) = pos_y (nodes sim ! i)"
    and "alphaTarget (pulse pulsing i sim) = alphaTarget sim"
    and "restarts (pulse pulsing i sim) = restarts sim"
proof -
  let ?s = "on_click False i sim"
  have l: "i < length (nodes ?s)" using assms by (simp add: on_click_def)
  have f: "fx (nodes ?s ! i) = Pinned (pos_x (nodes sim ! i))"
          "fy (nodes ?s ! i) = Pinned (pos_y (nodes sim ! i))"
          "pos_x (nodes ?s ! i) = pos_x (nodes sim ! i)"
          "pos_y (nodes ?s ! i) = pos_y (nodes sim ! i)"
    using assms by (simp_all add: on_click_def update_node_nth)
  show "length (nodes (pulse pulsing i sim)) = length (nodes sim)"
    by (simp add: pulse_def on_click_def)
  show "fx (nodes (pulse pulsing i sim) ! i) = Pinned (pos_x (nodes sim ! i))"
       "fy (nodes (pulse pulsing i sim) ! i) = Pinned (pos_y (nodes sim ! i))"
    using sim_ticks_keep [OF l, of pulsing] f by (simp_all add: pulse_def)
  show "pos_x (nodes (pulse pulsing i sim) ! i) = pos_x (nodes sim ! i)"
       "pos_y (nodes (pulse pulsing i sim) ! i) = pos_y (nodes sim ! i)"
    using sim_ticks_pinned [OF l, of pulsing] f by (simp_all add: pulse_def)
  show "alphaTarget (pulse pulsing i sim) = alphaTarget sim"
       "restarts (pulse pulsing i sim) = restarts sim"
    by (simp_all add: pulse_def on_click_def)
qed

lemma other_pins_kept:
  assumes "j < length (nodes sim)" "j \<noteq> i"
  shows "fx (nodes (click_gesture held idle pulsing i sim) ! j) = fx (nodes sim ! j)
         \<and> fy (nodes (click_gesture held idle pulsing i sim) ! j) = fy (nodes sim ! j)"
proof -
  let ?a = "drag_start False i sim"
  let ?b = "sim_ticks held ?a"
  let ?c = "drag_end False i ?b"
  let ?d = "sim_ticks idle ?c"
  let ?e = "on_click False i ?d"
  let ?f = "sim_ticks pulsing ?e"
  have la: "j < length (nodes ?a)" using assms by (simp add: drag_start_def)
  have a: "fx (nodes ?a ! j) = fx (nodes sim ! j) \<and> fy (nodes ?a ! j) = fy (nodes sim ! j)"
    using assms by (simp add: drag_start_def update_node_nth)
  have lb: "j < length (nodes ?b)" using la by simp
  have b: "fx (nodes ?b ! j) = fx (nodes sim ! j) \<and> fy (nodes ?b ! j) = fy (nodes sim ! j)"
    using sim_ticks_keep [OF la, of held] a by simp
  have lc: "j < length (nodes ?c)" using lb by (simp add: drag_end_def)
  have c: "fx (nodes ?c ! j) = fx (nodes sim ! j) \<and> fy (nodes ?c ! j) = fy (nodes sim ! j)"
    using lb assms(2) b by (simp add: drag_end_def update_node_nth)
  have ld: "j < length (nodes ?d)" using lc by simp
  have d: "fx (nodes ?d ! j) = fx (nodes sim ! j) \<and> fy (nodes ?d ! j) = fy (nodes sim ! j)"
    using sim_ticks_keep [OF lc, of idle] c by simp
  have le: "j < length (nodes ?e)" using ld by (simp add: on_click_def)
  have e: "fx (nodes ?e ! j) = fx (nodes sim ! j) \<and> fy (nodes ?e ! j) = fy (nodes sim ! j)"
    using ld assms(2) d by (simp add: on_click_def update_node_nth)
  have lf: "j < length (nodes ?f)" using le by simp
  have f: "fx (nodes ?f ! j) = fx (nodes sim ! j) \<and> fy (nodes ?f ! j) = fy (nodes sim ! j)"
    using sim_ticks_keep [OF le, of pulsing] e by simp
  show ?thesis
    using lf assms(2) f
    by (simp add: click_gesture_def pulse_def mouse_up_def mouse_down_def on_pulse_end_def
          update_node_nth)
qed

lemma click_without_ticks:
  assumes "i < length (nodes sim)"
  shows "click_gesture [] [] [] i sim =
           sim\<lparr>nodes := (nodes sim)[i := (nodes sim ! i)\<lparr>fx := Cleared, fy := Cleared\<rparr>],
               alphaTarget := 0, restarts := Suc (restarts sim)\<rparr>"
  using assms
  by (simp add: click_gesture_def pulse_def mouse_up_def mouse_down_def sim_ticks_def
        on_pulse_end_def on_click_def drag_end_def drag_start_def update_node_def)

text \<open>
  C9 says that a click sets no pin field during the pulse and leaves positions, pin fields
  and simulation state as they would be without it. As stated it fails. On a node at
  (1, 2) that was never pinned, the click listener writes \<^verbatim>\<open>fx = 1\<close> and \<^verbatim>\<open>fy = 2\<close>, and
  after the pulse the pin fields are \<^verbatim>\<open>null\<close>, not unset. The mousedown of the same click
  sets the alpha target to 0.3, and the whole click leaves the simulation restarted once.
\<close>

theorem click_sets_and_then_clears_the_pin:
  "fx (nodes example_simulation ! 0) = Unset
   \<and> fx (nodes (on_click False 0 example_simulation) ! 0) = Pinned 1
   \<and> fy (nodes (on_click False 0 example_simulation) ! 0) = Pinned 2
   \<and> on_pulse_end 0 (on_click False 0 example_simulation) \<noteq> example_simulation
   \<and> alphaTarget (mouse_down [] 0 example_simulation) = 3 / 10
   \<and> alphaTarget example_simulation = 0
   \<and> restarts (click_gesture [] [] [] 0 example_simulation) = 1
   \<and> restarts example_simulation = 0
   \<and> fx (nodes (click_gesture [] [] [] 0 example_simulation) ! 0) = Cleared"
  by (simp add: example_simulation_def on_click_def on_pulse_end_def update_node_def
        click_gesture_def pulse_def mouse_up_def mouse_down_def sim_ticks_def
        drag_end_def drag_start_def)

text \<open>
  C9, amended, for the whole click: mousedown, mouseup, click event, end of the pulse, with
  any simulation ticks in between. Mousedown pins the node where it is, sets the alpha
  target to 0.3 and restarts the simulation; ticks leave the pinned node in place. Mouseup
  clears the pin and sets the alpha target to 0. The click listener pins the node again
  where it then is, and the end of the pulse clears the pin, the node still being where
  it was at the click event. At the end the number of nodes is unchanged, the alpha target
  is 0, the simulation has been restarted once, and the pin fields of every other node are
  as before. If no tick ran, the state differs from the one before the click in exactly
  the cleared pin fields, the alpha target and the restart count, so no position has
  changed. A click whose default was prevented runs nothing of the click listener.
\<close>

theorem click_pins_and_reheats_then_releases:
  assumes i: "i < length (nodes sim)"
  shows "on_click True i sim = sim
         \<and> fx (nodes (mouse_down held i sim) ! i) = Pinned (pos_x (nodes sim ! i))
         \<and> fy (nodes (mouse_down held i sim) ! i) = Pinned (pos_y (nodes sim ! i))
         \<and> pos_x (nodes (mouse_down held i sim) ! i) = pos_x (nodes sim ! i)
         \<and> pos_y (nodes (mouse_down held i sim) ! i) = pos_y (nodes sim ! i)
         \<and> alphaTarget (mouse_down held i sim) = 3 / 10
         \<and> restarts (mouse_down held i sim) = Suc (restarts sim)
         \<and> fx (nodes (mouse_up idle i (mouse_down held i sim)) ! i) = Cleared
         \<and> fy (nodes (mouse_up idle i (mouse_down held i sim)) ! i) = Cleared
         \<and> alphaTarget (mouse_up idle i (mouse_down held i sim)) = 0
         \<and> fx (nodes (pulse pulsing i (mouse_up idle i (mouse_down held i sim))) ! i)
             = Pinned (pos_x (nodes (mouse_up idle i (mouse_down held i sim)) ! i))
         \<and> fy (nodes (pulse pulsing i (mouse_up idle i (mouse_down held i sim))) ! i)
             = Pinned (pos_y (nodes (mouse_up idle i (mouse_down held i sim)) ! i))
         \<and> fx (nodes (click_gesture held idle pulsing i sim) ! i) = Cleared
         \<and> fy (nodes (click_gesture held idle pulsing i sim) ! i) = Cleared
         \<and> pos_x (nodes (click_gesture held idle pulsing i sim) ! i)
             = pos_x (nodes (mouse_up idle i (mouse_down held i sim)) ! i)
         \<and> pos_y (nodes (click_gesture held idle pulsing i sim) ! i)
             = pos_y (nodes (mouse_up idle i (mouse_down held i sim)) ! i)
         \<and> length (nodes (click_gesture held idle pulsing i sim)) = length (nodes sim)
         \<and> alphaTarget (click_gesture held idle pulsing i sim) = 0
         \<and> restarts (click_gesture held idle pulsing i sim) = Suc (restarts sim)
         \<and> (\<forall>j < length (nodes sim). j \<noteq> i \<longrightarrow>
               fx (nodes (click_gesture held idle pulsing i sim) ! j) = fx (nodes sim ! j)
               \<and> fy (nodes (click_gesture held idle pulsing i sim) ! j) = fy (nodes sim ! j))
         \<and> click_gesture [] [] [] i sim =
             sim\<lparr>nodes := (nodes sim)[i := (nodes sim ! i)\<lparr>fx := Cleared, fy := Cleared\<rparr>],
                 alphaTarget := 0, restarts := Suc (restarts sim)\<rparr>"
proof -
  let ?down = "mouse_down held i sim"
  let ?up = "mouse_up idle i ?down"
  let ?pulse = "pulse pulsing i ?up"
  note d = mouse_down_facts [OF i, of held]
  have ld: "i < length (nodes ?down)" using i d(1) by simp
  note u = mouse_up_facts [OF ld, of idle]
  have lu: "i < length (nodes ?up)" using ld u(1) by simp
  note p = pulse_facts [OF lu, of pulsing]
  have lp: "i < length (nodes ?pulse)" using lu p(1) by simp
  have g: "click_gesture held idle pulsing i sim = on_pulse_end i ?pulse"
    by (simp add: click_gesture_def)
  have e: "fx (nodes (on_pulse_end i ?pulse) ! i) = Cleared"
          "fy (nodes (on_pulse_end i ?pulse) ! i) = Cleared"
          "pos_x (nodes (on_pulse_end i ?pulse) ! i) = pos_x (nodes ?pulse ! i)"
          "pos_y (nodes (on_pulse_end i ?pulse) ! i) = pos_y (nodes ?pulse ! i)"
    using lp by (simp_all add: on_pulse_end_def update_node_nth)
  have s: "length (nodes (on_pulse_end i ?pulse)) = length (nodes sim)"
          "alphaTarget (on_pulse_end i ?pulse) = 0"
          "restarts (on_pulse_end i ?pulse) = Suc (restarts sim)"
    using d(1,7) u(1,4,5) p(1,6,7) by (simp_all add: on_pulse_end_def)
  have o: "\<forall>j < length (nodes sim). j \<noteq> i \<longrightarrow>
               fx (nodes (click_gesture held idle pulsing i sim) ! j) = fx (nodes sim ! j)
               \<and> fy (nodes (click_gesture held idle pulsing i sim) ! j) = fy (nodes sim ! j)"
    using other_pins_kept by blast
  have c: "on_click True i sim = sim" by (simp add: on_click_def)
  show ?thesis
    unfolding g [symmetric]
    using c d(2-7) u(2-4) p(2,3) e [folded g] p(4,5) s [folded g] o click_without_ticks [OF i]
    by simp
qed

text \<open>
  The hypothesis of C9 at the first of the two example nodes, with one tick while the
  button is down.
\<close>

theorem click_pins_and_reheats_then_releases_witness:
  "(0::nat) < length (nodes example_simulation)
   \<and> alphaTarget (mouse_down [\<lambda>j. (7, 8)] 0 example_simulation) = 3 / 10
   \<and> pos_x (nodes (mouse_down [\<lambda>j. (7, 8)] 0 example_simulation) ! 0) = 1
   \<and> fx (nodes (click_gesture [\<lambda>j. (7, 8)] [] [] 0 example_simulation) ! 0) = Cleared
   \<and> restarts (click_gesture [\<lambda>j. (7, 8)] [] [] 0 example_simulation) = 1
   \<and> fx (nodes (click_gesture [\<lambda>j. (7, 8)] [] [] 0 example_simulation) ! 1) = Unset"
proof -
  have l: "(0::nat) < length (nodes example_simulation)"
    by (simp add: example_simulation_def)
  from click_pins_and_reheats_then_releases [OF l, of "[\<lambda>j. (7, 8)]" "[]" "[]"] l
  show ?thesis by (simp add: example_simulation_def)
qed

end
